theory Spec2Isabelle
  imports Complex_Main "HOL-Library.Sublist"
begin

section \<open>Seeking-robot simulation: agent control core\<close>

text \<open>
  The agent controller (the \<open>Agent\<close> component with \<open>flipCommand\<close>, \<open>checkCollisions\<close>,
  \<open>updateMovement\<close>, \<open>findPathThroughGap\<close>, \<open>followPath\<close> and the per-frame callback
  \<open>useFrame\<close>), the mission sequencer of \<open>App\<close> and the vision client are embedded
  below. JavaScript numbers are modelled as mathematical reals: every comparison and every
  arithmetic step of the source is kept, rounding is not modelled. The mutable \<open>useRef\<close>
  cells of the component become the fields of one record that each function takes and
  returns.
\<close>

subsection \<open>The shared types\<close>

text \<open>\<open>enum ActionType\<close> of the types module.\<close>

datatype ActionType = IDLE | FORWARD | LEFT | RIGHT | STOP | SCAN

text \<open>The enum is a string enum: each member's value is its own name.\<close>

fun actionName :: "ActionType \<Rightarrow> string" where
  "actionName IDLE = ''IDLE''"
| "actionName FORWARD = ''FORWARD''"
| "actionName LEFT = ''LEFT''"
| "actionName RIGHT = ''RIGHT''"
| "actionName STOP = ''STOP''"
| "actionName SCAN = ''SCAN''"

datatype TargetShape = RedCube | PinkSphere | GreenCone | YellowCylinder | SkeletonHead

text \<open>
  \<open>interface VisionResponse\<close>. The service builds it from the fields of a decoded JSON
  object without checking them, so every field may be missing (\<open>undefined\<close> is \<open>None\<close>) and
  \<open>action\<close> is whatever string the payload carries.
\<close>

record VisionResponse =
  action :: "string option"
  reasoning :: "string option"
  targetVisible :: "bool option"
  confidence :: "real option"
  boundingBox :: "(real \<times> real \<times> real \<times> real) option"
  distance :: "real option"
  angle :: "real option"

subsection \<open>The vision client\<close>

text \<open>
  What a request can come to. \<open>fetch\<close> rejects with a thrown value, or resolves to a
  response with its \<open>ok\<close> flag, status and status text; \<open>response.json()\<close> then rejects on a
  body that is not JSON, or yields \<open>null\<close>, or yields an object whose fields are read.
\<close>

datatype thrown = Error string | NotAnError

datatype body = Unparsable thrown | ParsedNull | Parsed VisionResponse

datatype fetch_result = Rejected thrown | Response bool nat string body

text \<open>\<open>String.prototype.includes\<close>.\<close>

fun includes_str :: "string \<Rightarrow> string \<Rightarrow> bool" where
  "includes_str [] t = (t = [])"
| "includes_str (c # cs) t = (prefix t (c # cs) \<or> includes_str cs t)"

text \<open>A status code in a template string: its decimal digits.\<close>

fun showNat :: "nat \<Rightarrow> string" where
  "showNat n =
     (if n < 10 then [char_of (48 + n)]
      else showNat (n div 10) @ [char_of (48 + n mod 10)])"

text \<open>
  The \<open>try\<close> block of the single-image request: the value it returns, or the value thrown
  inside it. Reading a field of \<open>null\<close> throws a \<open>TypeError\<close>.
\<close>

definition visionRequest :: "fetch_result \<Rightarrow> thrown + VisionResponse" where
  "visionRequest r =
     (case r of
        Rejected e \<Rightarrow> Inl e
      | Response ok status statusText b \<Rightarrow>
          if \<not> ok then
            Inl (Error (''SAM2 backend error: '' @ showNat status @ '' '' @ statusText))
          else
            (case b of
               Unparsable e \<Rightarrow> Inl e
             | ParsedNull \<Rightarrow> Inl (Error ''Cannot read properties of null'')
             | Parsed data \<Rightarrow>
                 Inr \<lparr>action = action data,
                      reasoning = reasoning data,
                      targetVisible = targetVisible data,
                      confidence = confidence data,
                      boundingBox = boundingBox data,
                      distance = None,
                      angle = None\<rparr>))"

text \<open>The \<open>catch\<close> block shared by the single-image requests.\<close>

definition scanFallback :: "thrown \<Rightarrow> VisionResponse" where
  "scanFallback error =
     (let errorMessage =
            (case error of
               Error message \<Rightarrow>
                 if includes_str message ''Failed to fetch'' \<or> includes_str message ''NetworkError''
                 then ''SAM2 backend not running. Please start the Python backend server.''
                 else ''SAM2 backend unavailable. Falling back to scan mode.''
             | NotAnError \<Rightarrow> ''SAM2 backend unavailable. Falling back to scan mode.'')
      in \<lparr>action = Some (actionName SCAN),
          reasoning = Some errorMessage,
          targetVisible = Some False,
          confidence = None,
          boundingBox = None,
          distance = None,
          angle = None\<rparr>)"

text \<open>\<open>getNavCommand\<close> of \<open>services/sam2.ts\<close> (one image).\<close>

definition getNavCommand1 :: "fetch_result \<Rightarrow> VisionResponse" where
  "getNavCommand1 r = (case visionRequest r of Inr v \<Rightarrow> v | Inl error \<Rightarrow> scanFallback error)"

text \<open>The stereo client: \<open>getMonocularNavCommand\<close> and the two-image \<open>getNavCommand\<close>.\<close>

definition getMonocularNavCommand :: "fetch_result \<Rightarrow> VisionResponse" where
  "getMonocularNavCommand r =
     (case visionRequest r of Inr v \<Rightarrow> v | Inl error \<Rightarrow> scanFallback error)"

text \<open>
  The stereo request is tried first; when it is rejected, not \<open>ok\<close>, or its body cannot be
  read, the monocular request is made (its outcome is the second argument).
\<close>

definition getNavCommand :: "fetch_result \<Rightarrow> fetch_result \<Rightarrow> VisionResponse" where
  "getNavCommand stereoResult monoResult =
     (case stereoResult of
        Rejected e \<Rightarrow> getMonocularNavCommand monoResult
      | Response ok status statusText b \<Rightarrow>
          if \<not> ok then getMonocularNavCommand monoResult
          else
            (case b of
               Unparsable e \<Rightarrow> getMonocularNavCommand monoResult
             | ParsedNull \<Rightarrow> getMonocularNavCommand monoResult
             | Parsed data \<Rightarrow>
                 \<lparr>action = action data,
                  reasoning = reasoning data,
                  targetVisible = targetVisible data,
                  confidence = confidence data,
                  boundingBox = boundingBox data,
                  distance = distance data,
                  angle = angle data\<rparr>))"

text \<open>The JSON object \<open>{}\<close> as a decoded payload: every expected field is missing.\<close>

definition emptyObject :: VisionResponse where
  "emptyObject =
     \<lparr>VisionResponse.action = None, reasoning = None, targetVisible = None, confidence = None,
      boundingBox = None, distance = None, angle = None\<rparr>"

subsection \<open>The mission sequencer\<close>

datatype condition = reached | detected

datatype mission_status = pending | active | completed | failed

record MissionStep =
  target :: TargetShape
  condition :: condition
  actions :: "ActionType list"

record ChainedMission =
  mission_id :: string
  steps :: "MissionStep list"
  current_step :: nat
  status :: mission_status

text \<open>
  The state of \<open>App\<close> that the sequencer reads and writes (the log and the frame previews
  are left out); \<open>isProcessing\<close> is the cell \<open>isProcessingRef\<close>.
\<close>

record app =
  selectedTarget :: TargetShape
  isRunning :: bool
  agentAction :: "string option"
  visionData :: "VisionResponse option"
  currentMission :: "ChainedMission option"
  isProcessing :: bool

definition handleNextStep :: "app \<Rightarrow> app" where
  "handleNextStep a =
     (case currentMission a of
        None \<Rightarrow> a
      | Some m \<Rightarrow>
          let nextStep = current_step m + 1 in
          if nextStep < length (steps m) then
            a\<lparr>currentMission := Some (m\<lparr>current_step := nextStep, status := active\<rparr>),
              selectedTarget := target (steps m ! nextStep)\<rparr>
          else
            a\<lparr>currentMission := Some (m\<lparr>status := completed\<rparr>),
              isRunning := False\<rparr>)"

text \<open>
  The target-reached test of \<open>handleVisionCapture\<close>:
  \<open>result.action === ActionType.STOP && result.targetVisible && result.confidence &&
  result.confidence > 0.8\<close>, with JavaScript's truthiness of a missing field, of \<open>false\<close>
  and of \<open>0\<close>.
\<close>

definition targetReached :: "VisionResponse \<Rightarrow> bool" where
  "targetReached result =
     (action result = Some (actionName STOP)
      \<and> targetVisible result = Some True
      \<and> (case confidence result of None \<Rightarrow> False | Some c \<Rightarrow> c \<noteq> 0 \<and> c > 0.8))"

text \<open>
  \<open>handleVisionCapture\<close> on the outcome of the awaited vision call (a result, or a value
  thrown). The auto-advance is scheduled with a one-second timeout in the source; here
  \<open>handleNextStep\<close> runs at once, on the mission the callback had captured.
\<close>

definition handleVisionCapture :: "thrown + VisionResponse \<Rightarrow> app \<Rightarrow> app" where
  "handleVisionCapture outcome a =
     (if isProcessing a \<or> \<not> isRunning a then a
      else
        (case outcome of
           Inr result \<Rightarrow>
             let a1 = a\<lparr>visionData := Some result, agentAction := action result\<rparr> in
             if targetReached result then
               (case currentMission a of
                  Some m \<Rightarrow>
                    if current_step m < length (steps m)
                       \<and> target (steps m ! current_step m) = selectedTarget a
                    then handleNextStep a1
                    else a1
                | None \<Rightarrow> a1\<lparr>isRunning := False\<rparr>)
             else a1
         | Inl e \<Rightarrow> a\<lparr>agentAction := Some (actionName SCAN)\<rparr>))"

subsection \<open>Numeric helpers of the agent\<close>

text \<open>
  \<open>THREE.MathUtils.lerp(x, y, t)\<close> is \<open>(1 - t) * x + t * y\<close> and
  \<open>THREE.MathUtils.clamp(v, lo, hi)\<close> is \<open>max(lo, min(hi, v))\<close> in the three.js library.
\<close>

definition lerp :: "real \<Rightarrow> real \<Rightarrow> real \<Rightarrow> real" where
  "lerp x y t = (1 - t) * x + t * y"

definition clamp :: "real \<Rightarrow> real \<Rightarrow> real \<Rightarrow> real" where
  "clamp v lo hi = max lo (min hi v)"

text \<open>\<open>Math.atan2(y, x)\<close>, the angle of the point \<open>(x, y)\<close> in \<open>(-\<pi>, \<pi>]\<close>.\<close>

definition atan2 :: "real \<Rightarrow> real \<Rightarrow> real" where
  "atan2 y x =
     (if 0 < x then arctan (y / x)
      else if x < 0 then (if 0 \<le> y then arctan (y / x) + pi else arctan (y / x) - pi)
      else if 0 < y then pi / 2
      else if y < 0 then - (pi / 2)
      else 0)"

subsection \<open>Constants of the agent\<close>

definition AGENT_RADIUS :: real where "AGENT_RADIUS = 0.4"
definition COLLISION_COOLDOWN_TIME :: real where "COLLISION_COOLDOWN_TIME = 1.0"
definition VIEW_SWITCH_COOLDOWN_TIME :: real where "VIEW_SWITCH_COOLDOWN_TIME = 2.0"

subsection \<open>The view/command mapper\<close>

text \<open>
  \<open>flipCommand\<close> reads the cell \<open>useRearView\<close>; it is the first argument here.
\<close>

definition flipCommand :: "bool \<Rightarrow> ActionType \<Rightarrow> ActionType" where
  "flipCommand rear cmd =
     (if \<not> rear then cmd
      else (case cmd of
              FORWARD \<Rightarrow> FORWARD
            | LEFT \<Rightarrow> RIGHT
            | RIGHT \<Rightarrow> LEFT
            | SCAN \<Rightarrow> SCAN
            | STOP \<Rightarrow> STOP
            | IDLE \<Rightarrow> IDLE))"

subsection \<open>The collision detector\<close>

type_synonym vec3 = "real \<times> real \<times> real"

definition distanceTo :: "vec3 \<Rightarrow> vec3 \<Rightarrow> real" where
  "distanceTo p q =
     (case p of (px, py, pz) \<Rightarrow> case q of (qx, qy, qz) \<Rightarrow>
        sqrt ((px - qx)\<^sup>2 + (py - qy)\<^sup>2 + (pz - qz)\<^sup>2))"

text \<open>The loop over the targets: the first one closer than the minimum distance collides.\<close>

fun hitsTarget :: "vec3 \<Rightarrow> vec3 list \<Rightarrow> bool" where
  "hitsTarget agentPos [] = False"
| "hitsTarget agentPos (t # ts) =
     (if distanceTo agentPos t < AGENT_RADIUS + 0.5 then True else hitsTarget agentPos ts)"

definition checkCollisions :: "vec3 \<Rightarrow> vec3 list \<Rightarrow> bool" where
  "checkCollisions agentPos targets =
     (case agentPos of (x, y, z) \<Rightarrow>
      let wallZ = 0;
          wallSegmentHalfWidth = 8.5;
          gapHalfWidth = 3;
          leftWallCenterX = - (wallSegmentHalfWidth + gapHalfWidth);
          rightWallCenterX = wallSegmentHalfWidth + gapHalfWidth;
          boundary = 14;
          wallThickness = 0.5
      in
        if \<bar>z - wallZ\<bar> < AGENT_RADIUS + 0.25
           \<and> \<bar>x - leftWallCenterX\<bar> < wallSegmentHalfWidth + AGENT_RADIUS then True
        else if \<bar>z - wallZ\<bar> < AGENT_RADIUS + 0.25
           \<and> \<bar>x - rightWallCenterX\<bar> < wallSegmentHalfWidth + AGENT_RADIUS then True
        else if \<bar>z - wallZ\<bar> < AGENT_RADIUS + 0.25 \<and> \<bar>x\<bar> < gapHalfWidth then False
        else if \<bar>z - boundary\<bar> < AGENT_RADIUS + wallThickness / 2 \<and> \<bar>x\<bar> < boundary then True
        else if \<bar>z + boundary\<bar> < AGENT_RADIUS + wallThickness / 2 \<and> \<bar>x\<bar> < boundary then True
        else if \<bar>x - boundary\<bar> < AGENT_RADIUS + wallThickness / 2 \<and> \<bar>z\<bar> < boundary then True
        else if \<bar>x + boundary\<bar> < AGENT_RADIUS + wallThickness / 2 \<and> \<bar>z\<bar> < boundary then True
        else hitsTarget agentPos targets)"

subsection \<open>The maze geometry\<close>

text \<open>
  \<open>WallWithGap\<close>: the central wall has length 40 and a gap of width 6. Each solid segment
  is a box centred at \<open>\<plusminus>(wallLength/2 + gapWidth/2)/2\<close> of width \<open>wallLength/2 - gapWidth/2\<close>.
\<close>

definition wallLength :: real where "wallLength = 40"
definition gapWidth :: real where "gapWidth = 6"

definition inSolidSegment :: "real \<Rightarrow> bool" where
  "inSolidSegment x =
     (\<bar>x - (- (wallLength / 2 + gapWidth / 2) / 2)\<bar> \<le> (wallLength / 2 - gapWidth / 2) / 2
      \<or> \<bar>x - (wallLength / 2 + gapWidth / 2) / 2\<bar> \<le> (wallLength / 2 - gapWidth / 2) / 2)"

subsection \<open>The state of the agent and the inputs of a frame\<close>

text \<open>
  The \<open>useRef\<close> cells of the component and the pose of its group
  (\<open>groupRef.current.position\<close>, \<open>groupRef.current.rotation.y\<close>).
\<close>

record agent =
  pos_x :: real
  pos_y :: real
  pos_z :: real
  rotation_y :: real
  velocity :: real
  rotationVelocity :: real
  collisionDetected :: bool
  collisionCooldown :: real
  useRearView :: bool
  viewSwitchCooldown :: real
  explorationMode :: bool
  explorationStartTime :: real
  lastRotationAngle :: real
  totalRotation :: real
  scanRotation :: real
  explorationPhase :: nat
  pathfindingMode :: bool
  currentPath :: "(real \<times> real) list"
  currentPathIndex :: nat

text \<open>
  What a frame receives from outside: the frame time \<open>delta\<close>, the clock
  \<open>state.clock.elapsedTime\<close>, and the props \<open>action\<close> and \<open>targetPosition\<close> (\<open>null\<close> is
  \<open>None\<close>).
\<close>

record frame =
  delta :: real
  elapsedTime :: real
  action :: ActionType
  targetPosition :: "vec3 option"

subsection \<open>The physics integrator\<close>

definition MAX_SPEED :: "bool \<Rightarrow> real" where
  "MAX_SPEED pathfinding = (if pathfinding then 7.5 else 2.5)"

definition ROT_SPEED :: real where "ROT_SPEED = 0.675"

definition targetVel :: "agent \<Rightarrow> ActionType \<Rightarrow> real" where
  "targetVel s effectiveAction =
     (case effectiveAction of
        FORWARD \<Rightarrow> MAX_SPEED (pathfindingMode s)
      | LEFT \<Rightarrow> velocity s * 0.5
      | RIGHT \<Rightarrow> velocity s * 0.5
      | SCAN \<Rightarrow> 0
      | STOP \<Rightarrow> 0
      | IDLE \<Rightarrow> 0)"

definition targetRot :: "ActionType \<Rightarrow> real" where
  "targetRot effectiveAction =
     (case effectiveAction of
        FORWARD \<Rightarrow> 0
      | LEFT \<Rightarrow> ROT_SPEED
      | RIGHT \<Rightarrow> - ROT_SPEED
      | SCAN \<Rightarrow> ROT_SPEED * 0.8 * 1.5
      | STOP \<Rightarrow> 0
      | IDLE \<Rightarrow> 0)"

definition updateMovement :: "real \<Rightarrow> ActionType \<Rightarrow> agent \<Rightarrow> agent" where
  "updateMovement dt effectiveAction s =
     s\<lparr>velocity := lerp (velocity s) (targetVel s effectiveAction) (dt * 2),
       rotationVelocity := lerp (rotationVelocity s) (targetRot effectiveAction) (dt * 4)\<rparr>"

subsection \<open>The waypoint pathfinder\<close>

datatype side = north | south

definition determineAgentSide :: "real \<Rightarrow> side" where
  "determineAgentSide agentZ = (if agentZ \<ge> 0 then north else south)"

definition determineTargetSide :: "real \<Rightarrow> side" where
  "determineTargetSide targetZ = (if targetZ \<ge> 0 then north else south)"

definition findPathThroughGap :: "real \<Rightarrow> real \<Rightarrow> side \<Rightarrow> (real \<times> real) list" where
  "findPathThroughGap startX startZ targetSide =
     (let BOUNDARY = 12;
          startSide = determineAgentSide startZ
      in
        if startSide = targetSide then
          [(startX, startZ),
           (0, if targetSide = north then min 10 BOUNDARY else max (- 10) (- BOUNDARY))]
        else
          let alignZ = (if startSide = north then 5 else - 5);
              approachZ = (if startSide = north then 2 else - 2);
              exitZ = (if targetSide = north then 2 else - 2);
              exploreZ = (if targetSide = north then min 8 BOUNDARY else max (- 8) (- BOUNDARY));
              spreadX = min (max startX (- BOUNDARY)) BOUNDARY;
              spreadZ = (if targetSide = north then min 10 BOUNDARY else max (- 10) (- BOUNDARY))
          in [(startX, startZ), (0, alignZ), (0, approachZ), (0, 0), (0, exitZ),
              (0, exploreZ), (spreadX, spreadZ)])"

definition calculateAngleToWaypoint :: "real \<times> real \<Rightarrow> real \<times> real \<Rightarrow> real" where
  "calculateAngleToWaypoint agentXZ waypoint =
     (let dx = fst waypoint - fst agentXZ;
          dz = snd waypoint - snd agentXZ
      in atan2 dx dz)"

text \<open>
  \<open>followPath\<close> returns the command and the state with the cells it wrote
  (\<open>pathfindingMode\<close>, \<open>currentPathIndex\<close>). After the index has moved on, the angle is
  still taken to the waypoint read before, as in the source.
\<close>

definition followPath :: "agent \<Rightarrow> ActionType \<times> agent" where
  "followPath s =
     (if length (currentPath s) = 0 \<or> currentPathIndex s \<ge> length (currentPath s) then
        (STOP, s\<lparr>pathfindingMode := False\<rparr>)
      else
        let currentWaypoint = currentPath s ! currentPathIndex s;
            distanceToWaypoint =
              sqrt ((pos_x s - fst currentWaypoint)\<^sup>2 + (pos_z s - snd currentWaypoint)\<^sup>2);
            s1 = (if distanceToWaypoint < 1.0
                  then s\<lparr>currentPathIndex := currentPathIndex s + 1\<rparr> else s)
        in
          if distanceToWaypoint < 1.0 \<and> currentPathIndex s1 \<ge> length (currentPath s1) then
            (STOP, s1\<lparr>pathfindingMode := False\<rparr>)
          else
            let targetAngle = calculateAngleToWaypoint (pos_x s, pos_z s) currentWaypoint;
                currentAngle = rotation_y s;
                angleDiff0 = targetAngle - currentAngle;
                angleDiff1 = (if angleDiff0 > pi then angleDiff0 - 2 * pi else angleDiff0);
                angleDiff = (if angleDiff1 < - pi then angleDiff1 + 2 * pi else angleDiff1)
            in
              if \<bar>angleDiff\<bar> < 0.1 then (FORWARD, s1)
              else if angleDiff > 0 then (LEFT, s1)
              else (RIGHT, s1))"

subsection \<open>The frame callback, block by block\<close>

text \<open>The heading change since the last frame, brought back into \<open>[-\<pi>, \<pi>]\<close>.\<close>

definition normalizedDelta :: "agent \<Rightarrow> real" where
  "normalizedDelta s =
     (let rotationDelta = rotation_y s - lastRotationAngle s;
          d1 = (if rotationDelta > pi then rotationDelta - 2 * pi else rotationDelta)
      in if d1 < - pi then d1 + 2 * pi else d1)"

definition trackRotation :: "agent \<Rightarrow> agent" where
  "trackRotation s =
     s\<lparr>lastRotationAngle := rotation_y s,
       totalRotation := totalRotation s + \<bar>normalizedDelta s\<bar>\<rparr>"

text \<open>Entering pathfinding mode after one full scan rotation.\<close>

definition oppositeSide :: "side \<Rightarrow> side" where
  "oppositeSide currentAgentSide = (if currentAgentSide = north then south else north)"

definition activatePathfinding :: "frame \<Rightarrow> agent \<Rightarrow> agent" where
  "activatePathfinding f s =
     (if scanRotation s > 2 * pi \<and> \<not> pathfindingMode s \<and> targetPosition f \<noteq> None then
        let currentAgentSide = determineAgentSide (pos_z s)
        in s\<lparr>pathfindingMode := True,
             currentPath :=
               findPathThroughGap (pos_x s) (pos_z s) (oppositeSide currentAgentSide),
             currentPathIndex := 0,
             useRearView := False,
             explorationMode := False,
             totalRotation := 0,
             scanRotation := 0\<rparr>
      else s)"

text \<open>Entering exploration mode when no target is assigned.\<close>

definition activateExploration :: "frame \<Rightarrow> agent \<Rightarrow> agent" where
  "activateExploration f s =
     (if totalRotation s > 2 * pi \<and> \<not> explorationMode s \<and> targetPosition f = None then
        s\<lparr>explorationMode := True,
          explorationStartTime := elapsedTime f,
          explorationPhase := 0,
          totalRotation := 0\<rparr>
      else s)"

text \<open>
  The branch of the pathfinding block for a command other than STOP: the integrator, the
  direct move toward the waypoint, the heading snapped to it (from the position already
  moved, since \<open>agentPos\<close> is the group's own position object), the collision check, and
  the early return.
\<close>

definition pathfindingMove :: "real \<Rightarrow> ActionType \<Rightarrow> agent \<Rightarrow> agent" where
  "pathfindingMove dt pathAction s =
     (let s1 = updateMovement dt (flipCommand (useRearView s) pathAction) s;
          currentWaypoint = currentPath s1 ! currentPathIndex s1;
          dirX = fst currentWaypoint - pos_x s1;
          dirZ = snd currentWaypoint - pos_z s1;
          dist = sqrt (dirX * dirX + dirZ * dirZ);
          s2 = (if dist > 0
                then s1\<lparr>pos_x := pos_x s1 + (dirX / dist) * velocity s1 * dt,
                        pos_z := pos_z s1 + (dirZ / dist) * velocity s1 * dt\<rparr>
                else s1);
          s3 = s2\<lparr>rotation_y := calculateAngleToWaypoint (pos_x s2, pos_z s2) currentWaypoint\<rparr>
      in
        if collisionCooldown s3 \<le> 0 then
          let hit = checkCollisions (pos_x s3, pos_y s3, pos_z s3) [];
              s4 = s3\<lparr>collisionDetected := hit\<rparr>
          in if hit
             then s4\<lparr>collisionCooldown := COLLISION_COOLDOWN_TIME,
                     pathfindingMode := False,
                     velocity := 0,
                     rotationVelocity := 0\<rparr>
             else s4
        else s3)"

text \<open>The exploration block: two phases on a timer, left when a target is assigned.\<close>

definition explorationStep :: "frame \<Rightarrow> agent \<Rightarrow> agent" where
  "explorationStep f s =
     (if explorationMode s \<and> \<not> pathfindingMode s then
        let explorationTime = elapsedTime f - explorationStartTime s;
            s1 = (if explorationPhase s = 0 then
                    let s' = s\<lparr>velocity := 1.5, rotationVelocity := 0\<rparr>
                    in if explorationTime > 3.0
                       then s'\<lparr>explorationPhase := 1, explorationStartTime := elapsedTime f\<rparr>
                       else s'
                  else if explorationPhase s = 1 then
                    let s' = s\<lparr>rotationVelocity := 1.0, velocity := 0.3\<rparr>
                    in if explorationTime > 1.2
                       then s'\<lparr>explorationPhase := 0, explorationStartTime := elapsedTime f\<rparr>
                       else s'
                  else s)
        in if targetPosition f \<noteq> None then s1\<lparr>explorationMode := False\<rparr> else s1
      else s)"

definition updateCooldowns :: "real \<Rightarrow> agent \<Rightarrow> agent" where
  "updateCooldowns dt s =
     (let s1 = (if collisionCooldown s > 0
                then s\<lparr>collisionCooldown := collisionCooldown s - dt\<rparr> else s)
      in if viewSwitchCooldown s1 > 0
         then s1\<lparr>viewSwitchCooldown := viewSwitchCooldown s1 - dt\<rparr> else s1)"

text \<open>The collision check of the normal path, with the rebound.\<close>

definition collisionStep :: "agent \<Rightarrow> agent" where
  "collisionStep s =
     (if collisionCooldown s \<le> 0 then
        let hit = checkCollisions (pos_x s, pos_y s, pos_z s) [];
            s1 = s\<lparr>collisionDetected := hit\<rparr>
        in if hit
           then s1\<lparr>collisionCooldown := COLLISION_COOLDOWN_TIME,
                   velocity := min 2.5 (\<bar>velocity s\<bar> + 1.5),
                   rotationVelocity := rotationVelocity s * 0.3\<rparr>
           else s1
      else s)"

text \<open>Scan rotation is accumulated only while the supplied command is SCAN.\<close>

definition accumulateScan :: "frame \<Rightarrow> real \<Rightarrow> agent \<Rightarrow> agent" where
  "accumulateScan f nd s =
     (if action f = SCAN then s\<lparr>scanRotation := scanRotation s + \<bar>nd\<bar>\<rparr>
      else s\<lparr>scanRotation := 0\<rparr>)"

text \<open>
  \<open>rotation.y += rotationVelocity * delta\<close>, then \<open>translateZ\<close>, which in three.js moves
  the object along its own z axis; for a rotation by \<open>\<theta>\<close> about the vertical axis that axis
  is \<open>(sin \<theta>, 0, cos \<theta>)\<close>.
\<close>

definition translateZ :: "real \<Rightarrow> agent \<Rightarrow> agent" where
  "translateZ d s =
     s\<lparr>pos_x := pos_x s + d * sin (rotation_y s),
       pos_z := pos_z s + d * cos (rotation_y s)\<rparr>"

definition applyMovement :: "real \<Rightarrow> agent \<Rightarrow> agent" where
  "applyMovement dt s =
     (let s1 = s\<lparr>rotation_y := rotation_y s + rotationVelocity s * dt\<rparr>
      in if useRearView s1 then translateZ (velocity s1 * dt) s1
         else translateZ (- velocity s1 * dt) s1)"

definition softBoundary :: "agent \<Rightarrow> agent" where
  "softBoundary s =
     (let boundary = 14;
          s1 = (if \<bar>pos_x s\<bar> > boundary - AGENT_RADIUS then
                  let x' = clamp (pos_x s) (- boundary + AGENT_RADIUS) (boundary - AGENT_RADIUS)
                  in s\<lparr>pos_x := x',
                       velocity := velocity s * 0.5,
                       rotationVelocity := rotationVelocity s + (if x' > 0 then 0.5 else - 0.5)\<rparr>
                else s)
      in if \<bar>pos_z s1\<bar> > boundary - AGENT_RADIUS then
           let z' = clamp (pos_z s1) (- boundary + AGENT_RADIUS) (boundary - AGENT_RADIUS)
           in s1\<lparr>pos_z := z',
                 velocity := velocity s1 * 0.5,
                 rotationVelocity := rotationVelocity s1 + (if z' > 0 then 0.5 else - 0.5)\<rparr>
         else s1)"

text \<open>
  Everything after the pathfinding block: exploration, cooldowns, collision, scan
  accumulation, the integrator, the move and the boundary clamp. \<open>nd\<close> is the heading
  change computed at the top of the frame.
\<close>

definition restOfFrame :: "frame \<Rightarrow> real \<Rightarrow> agent \<Rightarrow> agent" where
  "restOfFrame f nd s =
     (let s1 = explorationStep f s;
          s2 = updateCooldowns (delta f) s1;
          s3 = collisionStep s2;
          effectiveAction = flipCommand (useRearView s3) (action f);
          s4 = accumulateScan f nd s3;
          s5 = updateMovement (delta f) effectiveAction s4;
          s6 = applyMovement (delta f) s5
      in softBoundary s6)"

text \<open>One frame of the agent (the group is mounted).\<close>

definition useFrame :: "frame \<Rightarrow> agent \<Rightarrow> agent" where
  "useFrame f s =
     (let nd = normalizedDelta s;
          s1 = trackRotation s;
          s2 = activatePathfinding f s1;
          s3 = activateExploration f s2
      in
        if pathfindingMode s3 then
          (case followPath s3 of
             (pathAction, s4) \<Rightarrow>
               if pathAction \<noteq> STOP then pathfindingMove (delta f) pathAction s4
               else restOfFrame f nd (s4\<lparr>pathfindingMode := False, totalRotation := 0\<rparr>))
        else restOfFrame f nd s3)"

text \<open>The state at the point where the frame branches on pathfinding mode.\<close>

definition afterActivation :: "frame \<Rightarrow> agent \<Rightarrow> agent" where
  "afterActivation f s = activateExploration f (activatePathfinding f (trackRotation s))"

text \<open>The state of a normal frame just before the move is applied.\<close>

definition beforeMove :: "frame \<Rightarrow> real \<Rightarrow> agent \<Rightarrow> agent" where
  "beforeMove f nd s =
     (let s3 = collisionStep (updateCooldowns (delta f) (explorationStep f s))
      in updateMovement (delta f) (flipCommand (useRearView s3) (action f))
           (accumulateScan f nd s3))"

subsection \<open>States and inputs used as examples\<close>

text \<open>The agent as mounted: at the origin, at rest, every cell at its initial value.\<close>

definition restState :: agent where
  "restState =
     \<lparr>pos_x = 0, pos_y = 0, pos_z = 0, rotation_y = 0, velocity = 0, rotationVelocity = 0,
      collisionDetected = False, collisionCooldown = 0, useRearView = False,
      viewSwitchCooldown = 0, explorationMode = False, explorationStartTime = 0,
      lastRotationAngle = 0, totalRotation = 0, scanRotation = 0, explorationPhase = 0,
      pathfindingMode = False, currentPath = [], currentPathIndex = 0\<rparr>"

text \<open>A frame of one sixtieth of a second at clock time \<open>t\<close>.\<close>

definition frameAt :: "real \<Rightarrow> ActionType \<Rightarrow> vec3 option \<Rightarrow> frame" where
  "frameAt t a tp = \<lparr>delta = 1 / 60, elapsedTime = t, action = a, targetPosition = tp\<rparr>"




subsection \<open>Kinds of frame\<close>

text \<open>
  The two ways a frame leaves the pathfinding block: the agent keeps following its path
  (the early return), or \<open>followPath\<close> reports STOP, the path is complete and the frame goes
  on as a normal one. And the frames in which the exploration block runs its turn phase.
\<close>

definition followsPath :: "frame \<Rightarrow> agent \<Rightarrow> bool" where
  "followsPath f s =
     (pathfindingMode (afterActivation f s) \<and> fst (followPath (afterActivation f s)) \<noteq> STOP)"

definition completesPath :: "frame \<Rightarrow> agent \<Rightarrow> bool" where
  "completesPath f s =
     (pathfindingMode (afterActivation f s) \<and> fst (followPath (afterActivation f s)) = STOP)"

definition turnsInExploration :: "frame \<Rightarrow> agent \<Rightarrow> bool" where
  "turnsInExploration f s =
     (\<not> followsPath f s \<and> explorationMode (afterActivation f s)
      \<and> explorationPhase (afterActivation f s) = 1)"

text \<open>
  The state with which a frame goes on after the pathfinding block when it does not return
  from it: the state after activation, or, when \<open>followPath\<close> has reported the path
  complete, the state it returned with pathfinding mode off and the rotation total reset.
\<close>

definition restInput :: "frame \<Rightarrow> agent \<Rightarrow> agent" where
  "restInput f s =
     (let a = afterActivation f s
      in if pathfindingMode a
         then (snd (followPath a))\<lparr>pathfindingMode := False, totalRotation := 0\<rparr>
         else a)"

text \<open>
  Whether such a frame registers a collision: the cooldown has run out and the collision
  check fires at the agent's position.
\<close>

definition rebounds :: "frame \<Rightarrow> agent \<Rightarrow> bool" where
  "rebounds f s =
     (let s2 = updateCooldowns (delta f) (explorationStep f (restInput f s))
      in collisionCooldown s2 \<le> 0 \<and> checkCollisions (pos_x s2, pos_y s2, pos_z s2) [])"

text \<open>
  A frame in which the supplied command STOP is what drives the agent: the frame does not
  return from the pathfinding block, the agent is not exploring, and no collision rebound
  fires.
\<close>

definition reactiveStop :: "frame \<Rightarrow> agent \<Rightarrow> bool" where
  "reactiveStop f s =
     (action f = STOP \<and> \<not> followsPath f s
      \<and> \<not> explorationMode (restInput f s) \<and> \<not> rebounds f s)"

fun reactiveStopRun :: "frame list \<Rightarrow> agent \<Rightarrow> bool" where
  "reactiveStopRun [] s = True"
| "reactiveStopRun (f # fs) s = (reactiveStop f s \<and> reactiveStopRun fs (useFrame f s))"

subsection \<open>Runs of frames\<close>

text \<open>A run of frames, one after the other.\<close>

definition runFrames :: "frame list \<Rightarrow> agent \<Rightarrow> agent" where
  "runFrames fs s = fold useFrame fs s"

text \<open>
  The first \<open>n\<close> frames of a run at sixty frames a second under one command and one target
  position; frame \<open>k\<close> is at clock time \<open>(k + 1) / 60\<close>.
\<close>

definition framesAt :: "nat \<Rightarrow> ActionType \<Rightarrow> vec3 option \<Rightarrow> frame list" where
  "framesAt n a tp = map (\<lambda>k. frameAt (real (Suc k) / 60) a tp) [0..<n]"

section \<open>Properties\<close>

subsection \<open>What each block of the frame leaves unchanged\<close>

lemma updateMovement_fields [simp]:
  "pathfindingMode (updateMovement dt a s) = pathfindingMode s"
  "scanRotation (updateMovement dt a s) = scanRotation s"
  "explorationMode (updateMovement dt a s) = explorationMode s"
  "explorationPhase (updateMovement dt a s) = explorationPhase s"
  "explorationStartTime (updateMovement dt a s) = explorationStartTime s"
  "currentPath (updateMovement dt a s) = currentPath s"
  "currentPathIndex (updateMovement dt a s) = currentPathIndex s"
  by (simp_all add: updateMovement_def)

lemma softBoundary_fields [simp]:
  "pathfindingMode (softBoundary s) = pathfindingMode s"
  "scanRotation (softBoundary s) = scanRotation s"
  "explorationMode (softBoundary s) = explorationMode s"
  "explorationPhase (softBoundary s) = explorationPhase s"
  "explorationStartTime (softBoundary s) = explorationStartTime s"
  "currentPath (softBoundary s) = currentPath s"
  by (simp_all add: softBoundary_def Let_def)

lemma applyMovement_fields [simp]:
  "pathfindingMode (applyMovement dt s) = pathfindingMode s"
  "scanRotation (applyMovement dt s) = scanRotation s"
  "explorationMode (applyMovement dt s) = explorationMode s"
  "explorationPhase (applyMovement dt s) = explorationPhase s"
  "explorationStartTime (applyMovement dt s) = explorationStartTime s"
  "currentPath (applyMovement dt s) = currentPath s"
  by (simp_all add: applyMovement_def translateZ_def Let_def)

lemma accumulateScan_fields [simp]:
  "pathfindingMode (accumulateScan f nd s) = pathfindingMode s"
  "scanRotation (accumulateScan f nd s) = (if action f = SCAN then scanRotation s + \<bar>nd\<bar> else 0)"
  "explorationMode (accumulateScan f nd s) = explorationMode s"
  "explorationPhase (accumulateScan f nd s) = explorationPhase s"
  "explorationStartTime (accumulateScan f nd s) = explorationStartTime s"
  "currentPath (accumulateScan f nd s) = currentPath s"
  by (simp_all add: accumulateScan_def)

lemma collisionStep_fields [simp]:
  "pathfindingMode (collisionStep s) = pathfindingMode s"
  "scanRotation (collisionStep s) = scanRotation s"
  "explorationMode (collisionStep s) = explorationMode s"
  "explorationPhase (collisionStep s) = explorationPhase s"
  "explorationStartTime (collisionStep s) = explorationStartTime s"
  "currentPath (collisionStep s) = currentPath s"
  by (simp_all add: collisionStep_def Let_def)

lemma updateCooldowns_fields [simp]:
  "pathfindingMode (updateCooldowns dt s) = pathfindingMode s"
  "scanRotation (updateCooldowns dt s) = scanRotation s"
  "explorationMode (updateCooldowns dt s) = explorationMode s"
  "explorationPhase (updateCooldowns dt s) = explorationPhase s"
  "explorationStartTime (updateCooldowns dt s) = explorationStartTime s"
  "currentPath (updateCooldowns dt s) = currentPath s"
  by (simp_all add: updateCooldowns_def Let_def)

lemma explorationStep_fields [simp]:
  "pathfindingMode (explorationStep f s) = pathfindingMode s"
  "scanRotation (explorationStep f s) = scanRotation s"
  "currentPath (explorationStep f s) = currentPath s"
  by (simp_all add: explorationStep_def Let_def)

lemma restOfFrame_fields:
  "pathfindingMode (restOfFrame f nd s) = pathfindingMode s"
  "scanRotation (restOfFrame f nd s) = (if action f = SCAN then scanRotation s + \<bar>nd\<bar> else 0)"
  "explorationMode (restOfFrame f nd s) = explorationMode (explorationStep f s)"
  "explorationPhase (restOfFrame f nd s) = explorationPhase (explorationStep f s)"
  "explorationStartTime (restOfFrame f nd s) = explorationStartTime (explorationStep f s)"
  "currentPath (restOfFrame f nd s) = currentPath s"
  by (simp_all add: restOfFrame_def Let_def)

lemma pathfindingMove_fields:
  "scanRotation (pathfindingMove dt a s) = scanRotation s"
  "explorationMode (pathfindingMove dt a s) = explorationMode s"
  "explorationPhase (pathfindingMove dt a s) = explorationPhase s"
  "explorationStartTime (pathfindingMove dt a s) = explorationStartTime s"
  "currentPath (pathfindingMove dt a s) = currentPath s"
  by (simp_all add: pathfindingMove_def Let_def)

lemma pathfindingMove_mode_on:
  "pathfindingMode (pathfindingMove dt a s) \<Longrightarrow> pathfindingMode s"
  by (simp add: pathfindingMove_def Let_def split: if_splits)

lemma pathfindingMove_mode:
  "pathfindingMode s \<Longrightarrow>
   pathfindingMode (pathfindingMove dt a s) \<or> collisionDetected (pathfindingMove dt a s)"
  by (simp add: pathfindingMove_def Let_def)

lemma followPath_fields:
  "scanRotation (snd (followPath s)) = scanRotation s"
  "explorationMode (snd (followPath s)) = explorationMode s"
  "explorationPhase (snd (followPath s)) = explorationPhase s"
  "explorationStartTime (snd (followPath s)) = explorationStartTime s"
  "currentPath (snd (followPath s)) = currentPath s"
  by (simp_all add: followPath_def Let_def)

lemma followPath_mode_on:
  "pathfindingMode (snd (followPath s)) \<Longrightarrow> pathfindingMode s"
  by (simp add: followPath_def Let_def split: if_splits)

lemma followPath_continues:
  "fst (followPath s) \<noteq> STOP \<Longrightarrow> pathfindingMode (snd (followPath s)) = pathfindingMode s"
  by (auto simp: followPath_def Let_def split: if_splits)

lemma trackRotation_fields [simp]:
  "pathfindingMode (trackRotation s) = pathfindingMode s"
  "scanRotation (trackRotation s) = scanRotation s"
  "explorationMode (trackRotation s) = explorationMode s"
  "explorationPhase (trackRotation s) = explorationPhase s"
  "explorationStartTime (trackRotation s) = explorationStartTime s"
  "currentPath (trackRotation s) = currentPath s"
  "currentPathIndex (trackRotation s) = currentPathIndex s"
  "pos_x (trackRotation s) = pos_x s"
  "pos_z (trackRotation s) = pos_z s"
  by (simp_all add: trackRotation_def)

lemma activateExploration_fields [simp]:
  "pathfindingMode (activateExploration f s) = pathfindingMode s"
  "scanRotation (activateExploration f s) = scanRotation s"
  "currentPath (activateExploration f s) = currentPath s"
  "currentPathIndex (activateExploration f s) = currentPathIndex s"
  "pos_x (activateExploration f s) = pos_x s"
  "pos_z (activateExploration f s) = pos_z s"
  by (simp_all add: activateExploration_def)

text \<open>The frame, with the pair returned by \<open>followPath\<close> taken apart.\<close>

lemma useFrame_unfold:
  "useFrame f s =
     (let s3 = activateExploration f (activatePathfinding f (trackRotation s)) in
      if pathfindingMode s3 then
        (if fst (followPath s3) \<noteq> STOP
         then pathfindingMove (delta f) (fst (followPath s3)) (snd (followPath s3))
         else restOfFrame f (normalizedDelta s)
                ((snd (followPath s3))\<lparr>pathfindingMode := False, totalRotation := 0\<rparr>))
      else restOfFrame f (normalizedDelta s) s3)"
  by (simp add: useFrame_def Let_def split: prod.splits)

text \<open>
  A path just synthesized starts at the agent's own position, so \<open>followPath\<close> steps to the
  second waypoint and issues a steering command.
\<close>

lemma followPath_start:
  assumes "currentPath s =
      findPathThroughGap (pos_x s) (pos_z s) (oppositeSide (determineAgentSide (pos_z s)))"
    and "currentPathIndex s = 0"
  shows "fst (followPath s) \<noteq> STOP"
proof -
  have len: "length (currentPath s) = 7" and hd: "currentPath s ! 0 = (pos_x s, pos_z s)"
    using assms(1)
    by (simp_all add: findPathThroughGap_def Let_def oppositeSide_def determineAgentSide_def)
  show ?thesis
    using len hd assms(2) by (simp add: followPath_def Let_def)
qed

text \<open>The frame in which pathfinding is activated.\<close>

lemma activation_frame:
  assumes "scanRotation s > 2 * pi" "\<not> pathfindingMode s" "targetPosition f \<noteq> None"
  shows "useFrame f s =
      pathfindingMove (delta f)
        (fst (followPath (activatePathfinding f (trackRotation s))))
        (snd (followPath (activatePathfinding f (trackRotation s))))"
    and "currentPath (activatePathfinding f (trackRotation s)) =
      findPathThroughGap (pos_x s) (pos_z s) (oppositeSide (determineAgentSide (pos_z s)))"
    and "scanRotation (activatePathfinding f (trackRotation s)) = 0"
    and "explorationMode (activatePathfinding f (trackRotation s)) = False"
    and "pathfindingMode (snd (followPath (activatePathfinding f (trackRotation s))))"
proof -
  let ?s2 = "activatePathfinding f (trackRotation s)"
  have s2: "pathfindingMode ?s2" "currentPathIndex ?s2 = 0" "pos_x ?s2 = pos_x s"
    "pos_z ?s2 = pos_z s"
    "currentPath ?s2 =
      findPathThroughGap (pos_x s) (pos_z s) (oppositeSide (determineAgentSide (pos_z s)))"
    "scanRotation ?s2 = 0" "explorationMode ?s2 = False"
    using assms by (simp_all add: activatePathfinding_def Let_def)
  have ae: "activateExploration f ?s2 = ?s2"
    using assms(3) by (auto simp: activateExploration_def)
  have go: "fst (followPath ?s2) \<noteq> STOP"
    using s2 by (intro followPath_start) simp_all
  show "useFrame f s = pathfindingMove (delta f) (fst (followPath ?s2)) (snd (followPath ?s2))"
    using s2(1) go ae by (simp add: useFrame_unfold Let_def)
  show "currentPath ?s2 =
      findPathThroughGap (pos_x s) (pos_z s) (oppositeSide (determineAgentSide (pos_z s)))"
    by (rule s2(5))
  show "scanRotation ?s2 = 0" by (rule s2(6))
  show "explorationMode ?s2 = False" by (rule s2(7))
  show "pathfindingMode (snd (followPath ?s2))"
    using go s2(1) by (simp add: followPath_continues)
qed

lemma path_to_other_side:
  "determineAgentSide z \<noteq> t \<Longrightarrow>
   findPathThroughGap x z t =
     [(x, z), (0, if t = north then - 5 else 5), (0, if t = north then - 2 else 2), (0, 0),
      (0, if t = north then 2 else - 2), (0, if t = north then 8 else - 8),
      (min (max x (- 12)) 12, if t = north then 10 else - 10)]"
  by (cases t) (auto simp: findPathThroughGap_def Let_def determineAgentSide_def split: if_splits)

lemma oppositeSide_differs: "determineAgentSide z \<noteq> oppositeSide (determineAgentSide z)"
  by (simp add: oppositeSide_def)

lemma path_last_side:
  "determineAgentSide (snd (last (findPathThroughGap x z (oppositeSide (determineAgentSide z)))))
     = oppositeSide (determineAgentSide z)"
  by (simp add: findPathThroughGap_def Let_def oppositeSide_def determineAgentSide_def)

lemma two_pi_less_8: "2 * pi < 8"
  using pi_less_4 by simp

lemma lerp_between:
  fixes lo hi x y t :: real
  assumes "0 \<le> t" "t \<le> 1" "lo \<le> x" "x \<le> hi" "lo \<le> y" "y \<le> hi"
  shows "lo \<le> lerp x y t \<and> lerp x y t \<le> hi"
proof -
  have "(1 - t) * lo + t * lo \<le> (1 - t) * x + t * y"
    using assms by (intro add_mono mult_left_mono) simp_all
  moreover have "(1 - t) * x + t * y \<le> (1 - t) * hi + t * hi"
    using assms by (intro add_mono mult_left_mono) simp_all
  ultimately show ?thesis by (simp add: lerp_def algebra_simps)
qed

subsection \<open>The branches of a frame\<close>

lemma activatePathfinding_idle:
  "\<not> (scanRotation s > 2 * pi \<and> \<not> pathfindingMode s \<and> targetPosition f \<noteq> None) \<Longrightarrow>
   activatePathfinding f s = s"
  by (auto simp: activatePathfinding_def simp del: not_None_eq)

lemma activatePathfinding_scan:
  "scanRotation (activatePathfinding f s) =
     (if scanRotation s > 2 * pi \<and> \<not> pathfindingMode s \<and> targetPosition f \<noteq> None then 0
      else scanRotation s)"
  by (simp add: activatePathfinding_def Let_def del: not_None_eq)

text \<open>Pathfinding mode is on after a frame only through the branch that follows the path.\<close>

lemma useFrame_mode_on:
  assumes "pathfindingMode (useFrame f s)"
  shows "pathfindingMode (activatePathfinding f (trackRotation s))
     \<and> fst (followPath (activateExploration f (activatePathfinding f (trackRotation s)))) \<noteq> STOP"
proof -
  let ?s3 = "activateExploration f (activatePathfinding f (trackRotation s))"
  have m: "pathfindingMode ?s3"
  proof (rule ccontr)
    assume off: "\<not> pathfindingMode ?s3"
    then have "useFrame f s = restOfFrame f (normalizedDelta s) ?s3"
      by (simp only: useFrame_unfold Let_def if_False)
    with assms off show False by (simp only: restOfFrame_fields)
  qed
  have g: "fst (followPath ?s3) \<noteq> STOP"
  proof
    assume st: "fst (followPath ?s3) = STOP"
    with m have "useFrame f s = restOfFrame f (normalizedDelta s)
        ((snd (followPath ?s3))\<lparr>pathfindingMode := False, totalRotation := 0\<rparr>)"
      by (simp add: useFrame_unfold Let_def)
    with assms show False by (simp add: restOfFrame_fields)
  qed
  from m g show ?thesis by simp
qed

lemma activation_path:
  assumes "scanRotation s > 2 * pi" "\<not> pathfindingMode s" "targetPosition f \<noteq> None"
  shows "currentPath (useFrame f s) =
      findPathThroughGap (pos_x s) (pos_z s) (oppositeSide (determineAgentSide (pos_z s)))"
  unfolding activation_frame(1) [OF assms]
  by (simp only: pathfindingMove_fields followPath_fields activation_frame(2) [OF assms])

lemma useFrame_follow:
  "pathfindingMode (afterActivation f s) \<Longrightarrow> fst (followPath (afterActivation f s)) \<noteq> STOP \<Longrightarrow>
   useFrame f s = pathfindingMove (delta f) (fst (followPath (afterActivation f s)))
     (snd (followPath (afterActivation f s)))"
  unfolding afterActivation_def by (simp only: useFrame_unfold Let_def if_True simp_thms)

lemma useFrame_complete:
  "pathfindingMode (afterActivation f s) \<Longrightarrow> fst (followPath (afterActivation f s)) = STOP \<Longrightarrow>
   useFrame f s = restOfFrame f (normalizedDelta s)
     ((snd (followPath (afterActivation f s)))\<lparr>pathfindingMode := False, totalRotation := 0\<rparr>)"
  unfolding afterActivation_def by (simp only: useFrame_unfold Let_def if_True if_False simp_thms)

lemma useFrame_normal:
  "\<not> pathfindingMode (afterActivation f s) \<Longrightarrow>
   useFrame f s = restOfFrame f (normalizedDelta s) (afterActivation f s)"
  unfolding afterActivation_def by (simp only: useFrame_unfold Let_def if_False)

lemma afterActivation_fields:
  "pathfindingMode (afterActivation f s) = pathfindingMode (activatePathfinding f (trackRotation s))"
  "scanRotation (afterActivation f s) = scanRotation (activatePathfinding f (trackRotation s))"
  by (simp_all add: afterActivation_def)

lemma useFrame_scanRotation:
  "scanRotation (useFrame f s) =
     (if pathfindingMode (afterActivation f s) \<and> fst (followPath (afterActivation f s)) \<noteq> STOP
      then scanRotation (afterActivation f s)
      else if action f = SCAN then scanRotation (afterActivation f s) + \<bar>normalizedDelta s\<bar> else 0)"
proof (cases "pathfindingMode (afterActivation f s)")
  case False
  then show ?thesis by (simp add: useFrame_normal restOfFrame_fields)
next
  case True
  show ?thesis
  proof (cases "fst (followPath (afterActivation f s)) = STOP")
    case True
    with \<open>pathfindingMode (afterActivation f s)\<close> show ?thesis
      by (simp add: useFrame_complete restOfFrame_fields followPath_fields)
  next
    case False
    with \<open>pathfindingMode (afterActivation f s)\<close> show ?thesis
      by (simp add: useFrame_follow pathfindingMove_fields followPath_fields)
  qed
qed

lemma afterActivation_idle:
  "\<not> (scanRotation s > 2 * pi \<and> \<not> pathfindingMode s \<and> targetPosition f \<noteq> None) \<Longrightarrow>
   afterActivation f s = activateExploration f (trackRotation s)"
  by (simp add: afterActivation_def activatePathfinding_idle del: not_None_eq)

lemma afterActivation_scan:
  "scanRotation (afterActivation f s) =
     (if scanRotation s > 2 * pi \<and> \<not> pathfindingMode s \<and> targetPosition f \<noteq> None then 0
      else scanRotation s)"
  by (simp add: afterActivation_def activatePathfinding_scan del: not_None_eq)

lemma afterActivation_mode:
  "pathfindingMode (afterActivation f s) =
     (pathfindingMode s \<or> (scanRotation s > 2 * pi \<and> targetPosition f \<noteq> None))"
  by (auto simp: afterActivation_def activatePathfinding_def Let_def simp del: not_None_eq)

lemma useFrame_mode_on':
  assumes "pathfindingMode (useFrame f s)"
  shows "pathfindingMode (afterActivation f s) \<and> fst (followPath (afterActivation f s)) \<noteq> STOP"
  using useFrame_mode_on [OF assms] by (simp add: afterActivation_def)


lemma afterActivation_exploring:
  "explorationMode s \<Longrightarrow> \<not> pathfindingMode s \<Longrightarrow> targetPosition f = None \<Longrightarrow>
   afterActivation f s = trackRotation s"
  by (simp add: afterActivation_def activatePathfinding_def activateExploration_def)

lemma afterActivation_following:
  "pathfindingMode s \<Longrightarrow> targetPosition f \<noteq> None \<Longrightarrow> afterActivation f s = trackRotation s"
  by (auto simp: afterActivation_def activatePathfinding_def activateExploration_def
      simp del: not_None_eq)

lemma afterActivation_explorationMode:
  "targetPosition f \<noteq> None \<Longrightarrow>
   explorationMode (afterActivation f s) =
     (explorationMode s \<and> \<not> (scanRotation s > 2 * pi \<and> \<not> pathfindingMode s))"
  by (auto simp: afterActivation_def activatePathfinding_def activateExploration_def Let_def
      simp del: not_None_eq)


subsection \<open>Velocities over a frame\<close>

lemma velocity_unchanged [simp]:
  "velocity (trackRotation s) = velocity s"
  "velocity (activatePathfinding f s) = velocity s"
  "velocity (activateExploration f s) = velocity s"
  "velocity (updateCooldowns dt s) = velocity s"
  "velocity (accumulateScan f nd s) = velocity s"
  "velocity (applyMovement dt s) = velocity s"
  "velocity (snd (followPath s)) = velocity s"
  "rotationVelocity (applyMovement dt s) = rotationVelocity s"
  by (simp_all add: trackRotation_def activatePathfinding_def activateExploration_def
      updateCooldowns_def accumulateScan_def applyMovement_def translateZ_def followPath_def
      Let_def)

lemma afterActivation_velocity: "velocity (afterActivation f s) = velocity s"
  by (simp add: afterActivation_def)

lemma explorationStep_velocity:
  "0 \<le> velocity s \<and> velocity s \<le> 7.5 \<Longrightarrow>
   0 \<le> velocity (explorationStep f s) \<and> velocity (explorationStep f s) \<le> 7.5"
  by (simp add: explorationStep_def Let_def)

lemma collisionStep_velocity:
  "0 \<le> velocity s \<and> velocity s \<le> 7.5 \<Longrightarrow>
   0 \<le> velocity (collisionStep s) \<and> velocity (collisionStep s) \<le> 7.5"
  by (simp add: collisionStep_def Let_def min_def)

lemma updateMovement_velocity:
  assumes "0 \<le> dt" "dt \<le> 1 / 2" "0 \<le> velocity s \<and> velocity s \<le> 7.5"
  shows "0 \<le> velocity (updateMovement dt a s) \<and> velocity (updateMovement dt a s) \<le> 7.5"
proof -
  have tv: "0 \<le> targetVel s a \<and> targetVel s a \<le> 7.5"
    using assms(3) by (cases a) (simp_all add: targetVel_def MAX_SPEED_def)
  have "0 \<le> lerp (velocity s) (targetVel s a) (dt * 2)
      \<and> lerp (velocity s) (targetVel s a) (dt * 2) \<le> 7.5"
    using assms tv by (intro lerp_between) simp_all
  then show ?thesis by (simp add: updateMovement_def)
qed

lemma softBoundary_velocity:
  "0 \<le> velocity s \<and> velocity s \<le> 7.5 \<Longrightarrow>
   0 \<le> velocity (softBoundary s) \<and> velocity (softBoundary s) \<le> 7.5"
  by (simp add: softBoundary_def Let_def)

lemma restOfFrame_velocity:
  assumes "0 \<le> delta f" "delta f \<le> 1 / 2" "0 \<le> velocity s \<and> velocity s \<le> 7.5"
  shows "0 \<le> velocity (restOfFrame f nd s) \<and> velocity (restOfFrame f nd s) \<le> 7.5"
proof -
  let ?s3 = "collisionStep (updateCooldowns (delta f) (explorationStep f s))"
  have "0 \<le> velocity ?s3 \<and> velocity ?s3 \<le> 7.5"
    using explorationStep_velocity [OF assms(3), of f]
    by (intro collisionStep_velocity) simp
  then have "0 \<le> velocity (accumulateScan f nd ?s3) \<and> velocity (accumulateScan f nd ?s3) \<le> 7.5"
    by simp
  from updateMovement_velocity [OF assms(1) assms(2) this]
  show ?thesis
    unfolding restOfFrame_def Let_def
    by (intro softBoundary_velocity) simp
qed

lemma pathfindingMove_velocity:
  assumes "0 \<le> dt" "dt \<le> 1 / 2" "0 \<le> velocity s \<and> velocity s \<le> 7.5"
  shows "0 \<le> velocity (pathfindingMove dt a s) \<and> velocity (pathfindingMove dt a s) \<le> 7.5"
  using updateMovement_velocity [OF assms, of "flipCommand (useRearView s) a"]
  by (simp add: pathfindingMove_def Let_def)

lemma useFrame_velocity:
  assumes "0 \<le> delta f" "delta f \<le> 1 / 2" "0 \<le> velocity s \<and> velocity s \<le> 7.5"
  shows "0 \<le> velocity (useFrame f s) \<and> velocity (useFrame f s) \<le> 7.5"
proof (cases "pathfindingMode (afterActivation f s)")
  case False
  show ?thesis
    unfolding useFrame_normal [OF False]
    using assms by (intro restOfFrame_velocity) (simp_all add: afterActivation_velocity)
next
  case True
  show ?thesis
  proof (cases "fst (followPath (afterActivation f s)) = STOP")
    case True
    show ?thesis
      unfolding useFrame_complete [OF \<open>pathfindingMode (afterActivation f s)\<close> True]
      using assms by (intro restOfFrame_velocity) (simp_all add: afterActivation_velocity)
  next
    case False
    show ?thesis
      unfolding useFrame_follow [OF \<open>pathfindingMode (afterActivation f s)\<close> False]
      using assms by (intro pathfindingMove_velocity) (simp_all add: afterActivation_velocity)
  qed
qed

text \<open>Inside the boundary the clamp does nothing, and a move is no longer than the speed allows.\<close>

lemma softBoundary_inside:
  "\<bar>pos_x s\<bar> \<le> 13.6 \<Longrightarrow> \<bar>pos_z s\<bar> \<le> 13.6 \<Longrightarrow> softBoundary s = s"
  by (simp add: softBoundary_def Let_def AGENT_RADIUS_def)

lemma translateZ_pos:
  "\<bar>pos_x (translateZ d s)\<bar> \<le> \<bar>pos_x s\<bar> + \<bar>d\<bar>"
  "\<bar>pos_z (translateZ d s)\<bar> \<le> \<bar>pos_z s\<bar> + \<bar>d\<bar>"
proof -
  have "\<bar>d * sin (rotation_y s)\<bar> \<le> \<bar>d\<bar>" "\<bar>d * cos (rotation_y s)\<bar> \<le> \<bar>d\<bar>"
    by (simp_all add: abs_mult mult_left_le)
  then show "\<bar>pos_x (translateZ d s)\<bar> \<le> \<bar>pos_x s\<bar> + \<bar>d\<bar>"
    "\<bar>pos_z (translateZ d s)\<bar> \<le> \<bar>pos_z s\<bar> + \<bar>d\<bar>"
    unfolding translateZ_def by (simp_all; linarith)+
qed

lemma applyMovement_pos:
  "\<bar>pos_x (applyMovement dt s)\<bar> \<le> \<bar>pos_x s\<bar> + \<bar>velocity s * dt\<bar>"
  "\<bar>pos_z (applyMovement dt s)\<bar> \<le> \<bar>pos_z s\<bar> + \<bar>velocity s * dt\<bar>"
proof -
  let ?s1 = "s\<lparr>rotation_y := rotation_y s + rotationVelocity s * dt\<rparr>"
  show "\<bar>pos_x (applyMovement dt s)\<bar> \<le> \<bar>pos_x s\<bar> + \<bar>velocity s * dt\<bar>"
    using translateZ_pos(1) [of "velocity s * dt" ?s1]
      translateZ_pos(1) [of "- velocity s * dt" ?s1]
    by (simp add: applyMovement_def Let_def)
  show "\<bar>pos_z (applyMovement dt s)\<bar> \<le> \<bar>pos_z s\<bar> + \<bar>velocity s * dt\<bar>"
    using translateZ_pos(2) [of "velocity s * dt" ?s1]
      translateZ_pos(2) [of "- velocity s * dt" ?s1]
    by (simp add: applyMovement_def Let_def)
qed

lemma restOfFrame_inside:
  assumes "\<bar>pos_x (beforeMove f nd s)\<bar> + \<bar>velocity (beforeMove f nd s) * delta f\<bar> \<le> 13.6"
    and "\<bar>pos_z (beforeMove f nd s)\<bar> + \<bar>velocity (beforeMove f nd s) * delta f\<bar> \<le> 13.6"
  shows "velocity (restOfFrame f nd s) = velocity (beforeMove f nd s)"
    and "rotationVelocity (restOfFrame f nd s) = rotationVelocity (beforeMove f nd s)"
proof -
  let ?m = "applyMovement (delta f) (beforeMove f nd s)"
  have r: "restOfFrame f nd s = softBoundary ?m"
    by (simp add: restOfFrame_def beforeMove_def Let_def)
  have "\<bar>pos_x ?m\<bar> \<le> 13.6" "\<bar>pos_z ?m\<bar> \<le> 13.6"
    using applyMovement_pos [of "delta f" "beforeMove f nd s"] assms by linarith+
  then have "softBoundary ?m = ?m" by (rule softBoundary_inside)
  then show "velocity (restOfFrame f nd s) = velocity (beforeMove f nd s)"
    and "rotationVelocity (restOfFrame f nd s) = rotationVelocity (beforeMove f nd s)"
    by (simp_all add: r)
qed

text \<open>Two frames worked out: a turn frame of exploration, and the frame that completes a path.\<close>

lemma turn_frame_example:
  "rotationVelocity (useFrame (frameAt 1 IDLE None)
      (restState\<lparr>explorationMode := True, explorationPhase := 1\<rparr>)) = 14 / 15"
proof -
  define s where "s = restState\<lparr>explorationMode := True, explorationPhase := 1\<rparr>"
  define f where "f = frameAt 1 IDLE None"
  have aa: "afterActivation f s = trackRotation s"
    by (rule afterActivation_exploring) (simp_all add: s_def f_def restState_def frameAt_def)
  have off: "\<not> pathfindingMode (afterActivation f s)"
    unfolding aa by (simp add: s_def restState_def)
  have bm: "rotationVelocity (beforeMove f (normalizedDelta s) (trackRotation s)) = 14 / 15"
    "velocity (beforeMove f (normalizedDelta s) (trackRotation s)) = 29 / 100"
    "pos_x (beforeMove f (normalizedDelta s) (trackRotation s)) = 0"
    "pos_z (beforeMove f (normalizedDelta s) (trackRotation s)) = 0"
    by (simp_all add: beforeMove_def explorationStep_def updateCooldowns_def collisionStep_def
        accumulateScan_def updateMovement_def trackRotation_def s_def f_def restState_def
        frameAt_def flipCommand_def checkCollisions_def AGENT_RADIUS_def targetVel_def
        targetRot_def lerp_def Let_def)
  have d: "delta f = 1 / 60" by (simp add: f_def frameAt_def)
  have "rotationVelocity (useFrame f s) = 14 / 15"
    unfolding useFrame_normal [OF off] aa
    by (subst restOfFrame_inside(2)) (simp_all add: bm d)
  then show ?thesis by (simp only: s_def f_def)
qed

lemma completion_frame_example:
  "velocity (useFrame (frameAt 10 IDLE (Some (0, 0, - 5)))
      (restState\<lparr>pos_z := - 9.5, velocity := 7, pathfindingMode := True,
         currentPath := findPathThroughGap 0 0 south, currentPathIndex := 6\<rparr>)) = 203 / 30
   \<and> \<not> pathfindingMode (useFrame (frameAt 10 IDLE (Some (0, 0, - 5)))
      (restState\<lparr>pos_z := - 9.5, velocity := 7, pathfindingMode := True,
         currentPath := findPathThroughGap 0 0 south, currentPathIndex := 6\<rparr>))"
proof -
  define s where "s = restState\<lparr>pos_z := - 9.5, velocity := 7, pathfindingMode := True,
         currentPath := findPathThroughGap 0 0 south, currentPathIndex := 6\<rparr>"
  define f where "f = frameAt 10 IDLE (Some (0, 0, - 5))"
  define c where "c = (trackRotation s)\<lparr>currentPathIndex := 7, pathfindingMode := False\<rparr>"
  have aa: "afterActivation f s = trackRotation s"
    by (rule afterActivation_following) (simp_all add: s_def f_def restState_def frameAt_def)
  have on: "pathfindingMode (afterActivation f s)"
    unfolding aa by (simp add: s_def restState_def)
  have fp: "followPath (trackRotation s) = (STOP, c)"
    by (simp add: followPath_def c_def trackRotation_def s_def restState_def
        findPathThroughGap_def determineAgentSide_def Let_def power2_eq_square)
  have st: "fst (followPath (afterActivation f s)) = STOP"
    unfolding aa fp by simp
  have bm: "velocity (beforeMove f (normalizedDelta s)
        (c\<lparr>pathfindingMode := False, totalRotation := 0\<rparr>)) = 203 / 30"
    "pos_x (beforeMove f (normalizedDelta s) (c\<lparr>pathfindingMode := False, totalRotation := 0\<rparr>)) = 0"
    "pos_z (beforeMove f (normalizedDelta s) (c\<lparr>pathfindingMode := False, totalRotation := 0\<rparr>))
       = - 9.5"
    by (simp_all add: beforeMove_def explorationStep_def updateCooldowns_def collisionStep_def
        accumulateScan_def updateMovement_def trackRotation_def c_def s_def f_def restState_def
        frameAt_def flipCommand_def checkCollisions_def AGENT_RADIUS_def targetVel_def
        targetRot_def MAX_SPEED_def lerp_def Let_def)
  have d: "delta f = 1 / 60" by (simp add: f_def frameAt_def)
  have u: "useFrame f s = restOfFrame f (normalizedDelta s)
      (c\<lparr>pathfindingMode := False, totalRotation := 0\<rparr>)"
    unfolding useFrame_complete [OF on st] aa fp by simp
  have "velocity (useFrame f s) = 203 / 30"
    unfolding u by (subst restOfFrame_inside(1)) (simp_all add: bm d)
  moreover have "\<not> pathfindingMode (useFrame f s)"
    unfolding u by (simp add: restOfFrame_fields)
  ultimately show ?thesis by (simp only: s_def f_def simp_thms)
qed

subsection \<open>The sequencer and the vision client\<close>





lemma scanFallback_shape:
  "VisionResponse.action (scanFallback e) = Some ''SCAN''
   \<and> targetVisible (scanFallback e) = Some False
   \<and> (\<exists>msg. reasoning (scanFallback e) = Some msg \<and> msg \<noteq> []
        \<and> (msg = ''SAM2 backend not running. Please start the Python backend server.''
            \<or> msg = ''SAM2 backend unavailable. Falling back to scan mode.''))"
  by (cases e) (simp_all add: scanFallback_def Let_def)

text \<open>The single-image clients on each outcome of the request.\<close>

lemma single_image_outcomes:
  "getMonocularNavCommand (Rejected e) = scanFallback e"
  "getMonocularNavCommand (Response False code txt b)
     = scanFallback (Error (''SAM2 backend error: '' @ showNat code @ '' '' @ txt))"
  "getMonocularNavCommand (Response True code txt (Unparsable e)) = scanFallback e"
  "getMonocularNavCommand (Response True code txt ParsedNull)
     = scanFallback (Error ''Cannot read properties of null'')"
  "getNavCommand1 r = getMonocularNavCommand r"
  by (simp_all add: getMonocularNavCommand_def getNavCommand1_def visionRequest_def)

text \<open>The stereo client hands over to the monocular request when its own request fails.\<close>

lemma stereo_outcomes:
  "getNavCommand (Rejected e) r = getMonocularNavCommand r"
  "getNavCommand (Response False code txt b) r = getMonocularNavCommand r"
  "getNavCommand (Response True code txt (Unparsable e)) r = getMonocularNavCommand r"
  "getNavCommand (Response True code txt ParsedNull) r = getMonocularNavCommand r"
  by (simp_all add: getNavCommand_def)

text \<open>A body that parses is passed on as it is, whatever its fields hold.\<close>

lemma parsed_body_unvalidated:
  "VisionResponse.action (getMonocularNavCommand (Response True code txt (Parsed data)))
     = VisionResponse.action data"
  "VisionResponse.action (getNavCommand (Response True code txt (Parsed data)) r)
     = VisionResponse.action data"
  by (simp_all add: getMonocularNavCommand_def getNavCommand_def visionRequest_def)

subsection \<open>Runs of frames and the heading\<close>

lemma runFrames_Suc:
  "runFrames (framesAt (Suc n) a tp) s =
     useFrame (frameAt (real (Suc n) / 60) a tp) (runFrames (framesAt n a tp) s)"
  by (simp add: runFrames_def framesAt_def)

lemma runFrames_0: "runFrames (framesAt 0 a tp) s = s"
  by (simp add: runFrames_def framesAt_def)

lemma frameAt_fields [simp]:
  "delta (frameAt t a tp) = 1 / 60" "elapsedTime (frameAt t a tp) = t"
  "action (frameAt t a tp) = a" "targetPosition (frameAt t a tp) = tp"
  by (simp_all add: frameAt_def)









subsection \<open>Frames under the command STOP\<close>

lemma explorationStep_nonneg:
  "0 \<le> velocity s \<Longrightarrow> 0 \<le> velocity (explorationStep f s)"
  by (simp add: explorationStep_def Let_def)

lemma collisionStep_nonneg: "0 \<le> velocity s \<Longrightarrow> 0 \<le> velocity (collisionStep s)"
  by (simp add: collisionStep_def Let_def min_def)

lemma updateMovement_nonneg:
  assumes "0 \<le> dt" "dt \<le> 1 / 2" "0 \<le> velocity s"
  shows "0 \<le> velocity (updateMovement dt a s)"
proof -
  have tv: "0 \<le> targetVel s a"
    using assms(3) by (cases a) (simp_all add: targetVel_def MAX_SPEED_def)
  have "0 \<le> (1 - dt * 2) * velocity s" "0 \<le> dt * 2 * targetVel s a"
    using assms tv by simp_all
  then show ?thesis by (simp add: updateMovement_def lerp_def)
qed

lemma softBoundary_nonneg: "0 \<le> velocity s \<Longrightarrow> 0 \<le> velocity (softBoundary s)"
  by (simp add: softBoundary_def Let_def)

lemma restOfFrame_nonneg:
  assumes "0 \<le> delta f" "delta f \<le> 1 / 2" "0 \<le> velocity s"
  shows "0 \<le> velocity (restOfFrame f nd s)"
proof -
  let ?s3 = "collisionStep (updateCooldowns (delta f) (explorationStep f s))"
  have "0 \<le> velocity ?s3"
    using explorationStep_nonneg [OF assms(3), of f] by (intro collisionStep_nonneg) simp
  then have "0 \<le> velocity (accumulateScan f nd ?s3)" by simp
  from updateMovement_nonneg [OF assms(1) assms(2) this]
  show ?thesis
    unfolding restOfFrame_def Let_def by (intro softBoundary_nonneg) simp
qed

lemma pathfindingMove_nonneg:
  assumes "0 \<le> dt" "dt \<le> 1 / 2" "0 \<le> velocity s"
  shows "0 \<le> velocity (pathfindingMove dt a s)"
  using updateMovement_nonneg [OF assms, of "flipCommand (useRearView s) a"]
  by (simp add: pathfindingMove_def Let_def)

lemma useFrame_nonneg:
  assumes "0 \<le> delta f" "delta f \<le> 1 / 2" "0 \<le> velocity s"
  shows "0 \<le> velocity (useFrame f s)"
proof (cases "pathfindingMode (afterActivation f s)")
  case False
  show ?thesis
    unfolding useFrame_normal [OF False]
    using assms by (intro restOfFrame_nonneg) (simp_all add: afterActivation_velocity)
next
  case True
  show ?thesis
  proof (cases "fst (followPath (afterActivation f s)) = STOP")
    case True
    show ?thesis
      unfolding useFrame_complete [OF \<open>pathfindingMode (afterActivation f s)\<close> True]
      using assms by (intro restOfFrame_nonneg) (simp_all add: afterActivation_velocity)
  next
    case False
    show ?thesis
      unfolding useFrame_follow [OF \<open>pathfindingMode (afterActivation f s)\<close> False]
      using assms by (intro pathfindingMove_nonneg) (simp_all add: afterActivation_velocity)
  qed
qed

text \<open>What the boundary clamp does to the forward velocity.\<close>

lemma softBoundary_velocity_cases:
  "velocity (softBoundary m) = velocity m \<or> velocity (softBoundary m) = velocity m / 2
   \<or> velocity (softBoundary m) = velocity m / 4"
  by (simp add: softBoundary_def Let_def)

lemma softBoundary_strictly_inside:
  assumes "\<bar>pos_x (softBoundary m)\<bar> < 13.6" "\<bar>pos_z (softBoundary m)\<bar> < 13.6"
  shows "softBoundary m = m"
proof -
  have x: "\<not> \<bar>pos_x m\<bar> > 13.6"
  proof
    assume "\<bar>pos_x m\<bar> > 13.6"
    then have "\<bar>pos_x (softBoundary m)\<bar> = 13.6"
      by (simp add: softBoundary_def Let_def AGENT_RADIUS_def clamp_def abs_if min_def max_def
          split: if_splits)
    with assms(1) show False by simp
  qed
  have z: "\<not> \<bar>pos_z m\<bar> > 13.6"
  proof
    assume "\<bar>pos_z m\<bar> > 13.6"
    then have "\<bar>pos_z (softBoundary m)\<bar> = 13.6"
      using x
      by (simp add: softBoundary_def Let_def AGENT_RADIUS_def clamp_def abs_if min_def max_def
          split: if_splits)
    with assms(2) show False by simp
  qed
  from x z show ?thesis by (intro softBoundary_inside) simp_all
qed

text \<open>A frame in which STOP drives the agent.\<close>

lemma useFrame_rest:
  assumes "\<not> followsPath f s"
  shows "useFrame f s = restOfFrame f (normalizedDelta s) (restInput f s)"
proof (cases "pathfindingMode (afterActivation f s)")
  case False
  then show ?thesis by (simp add: useFrame_normal restInput_def)
next
  case True
  with assms have "fst (followPath (afterActivation f s)) = STOP"
    by (simp add: followsPath_def)
  with True show ?thesis by (simp add: useFrame_complete restInput_def)
qed

lemma restInput_velocity: "velocity (restInput f s) = velocity s"
  by (simp add: restInput_def Let_def afterActivation_velocity)

lemma reactiveStop_frame:
  assumes "reactiveStop f s"
  shows "useFrame f s =
      softBoundary (applyMovement (delta f)
        (beforeMove f (normalizedDelta s) (restInput f s)))"
    and "velocity (beforeMove f (normalizedDelta s) (restInput f s))
      = velocity s * (1 - delta f * 2)"
proof -
  let ?a = "restInput f s"
  have h: "action f = STOP" "\<not> followsPath f s" "\<not> explorationMode ?a" "\<not> rebounds f s"
    using assms by (simp_all add: reactiveStop_def)
  show "useFrame f s =
      softBoundary (applyMovement (delta f) (beforeMove f (normalizedDelta s) ?a))"
    unfolding useFrame_rest [OF h(2)] by (simp add: restOfFrame_def beforeMove_def Let_def)
  have e: "explorationStep f ?a = ?a" using h(3) by (simp add: explorationStep_def)
  have c: "velocity (collisionStep (updateCooldowns (delta f) ?a)) = velocity ?a"
    using h(4) by (auto simp: rebounds_def e collisionStep_def Let_def)
  have fc: "flipCommand r STOP = STOP" for r by (simp add: flipCommand_def)
  show "velocity (beforeMove f (normalizedDelta s) ?a) = velocity s * (1 - delta f * 2)"
    by (simp add: beforeMove_def Let_def e h(1) fc updateMovement_def targetVel_def lerp_def c
        restInput_velocity)
qed

lemma reactiveStop_velocity:
  assumes "reactiveStop f s" "0 \<le> delta f" "delta f \<le> 1 / 2" "0 \<le> velocity s"
  shows "velocity s * (1 - delta f * 2) / 4 \<le> velocity (useFrame f s)"
    and "velocity (useFrame f s) \<le> velocity s * (1 - delta f * 2)"
    and "\<bar>pos_x (useFrame f s)\<bar> < 13.6 \<Longrightarrow> \<bar>pos_z (useFrame f s)\<bar> < 13.6 \<Longrightarrow>
      velocity (useFrame f s) = velocity s * (1 - delta f * 2)"
proof -
  let ?b = "beforeMove f (normalizedDelta s) (restInput f s)"
  let ?m = "applyMovement (delta f) ?b"
  note rf = reactiveStop_frame [OF assms(1)]
  have vm: "velocity ?m = velocity s * (1 - delta f * 2)" by (simp add: rf(2))
  have q: "0 \<le> velocity s * (1 - delta f * 2)" using assms(2-4) by simp
  show "velocity s * (1 - delta f * 2) / 4 \<le> velocity (useFrame f s)"
    unfolding rf(1) using softBoundary_velocity_cases [of ?m] q unfolding vm by auto
  show "velocity (useFrame f s) \<le> velocity s * (1 - delta f * 2)"
    unfolding rf(1) using softBoundary_velocity_cases [of ?m] q unfolding vm by auto
  show "velocity (useFrame f s) = velocity s * (1 - delta f * 2)"
    if "\<bar>pos_x (useFrame f s)\<bar> < 13.6" "\<bar>pos_z (useFrame f s)\<bar> < 13.6"
  proof -
    have "softBoundary ?m = ?m"
      using that unfolding rf(1) by (rule softBoundary_strictly_inside)
    then show ?thesis unfolding rf(1) by (simp add: rf(2))
  qed
qed

lemma reactiveStopRun_velocity:
  assumes "0 \<le> dt" "dt \<le> 1 / 2"
  shows "reactiveStopRun fs s \<Longrightarrow> \<forall>g \<in> set fs. delta g = dt \<Longrightarrow> 0 \<le> velocity s \<Longrightarrow>
     velocity s * ((1 - dt * 2) / 4) ^ length fs \<le> velocity (runFrames fs s)
     \<and> velocity (runFrames fs s) \<le> velocity s * (1 - dt * 2) ^ length fs"
proof (induction fs arbitrary: s)
  case Nil
  then show ?case by (simp add: runFrames_def)
next
  case (Cons f fs)
  let ?q = "1 - dt * 2"
  have d: "delta f = dt" using Cons.prems(2) by simp
  have r: "reactiveStop f s" "reactiveStopRun fs (useFrame f s)" using Cons.prems(1) by simp_all
  have q: "0 \<le> ?q" using assms by simp
  have lo: "velocity s * ?q / 4 \<le> velocity (useFrame f s)"
    and hi: "velocity (useFrame f s) \<le> velocity s * ?q"
    using reactiveStop_velocity(1,2) [OF r(1)] assms Cons.prems(3) by (simp_all add: d)
  have nn: "0 \<le> velocity (useFrame f s)"
    using lo Cons.prems(3) q by (smt (verit) divide_nonneg_pos mult_nonneg_nonneg)
  have ih: "velocity (useFrame f s) * (?q / 4) ^ length fs \<le> velocity (runFrames fs (useFrame f s))"
    "velocity (runFrames fs (useFrame f s)) \<le> velocity (useFrame f s) * ?q ^ length fs"
    using Cons.IH [OF r(2) _ nn] Cons.prems(2) by simp_all
  have "velocity s * (?q / 4) ^ length (f # fs) = (velocity s * ?q / 4) * (?q / 4) ^ length fs"
    by simp
  also have "\<dots> \<le> velocity (useFrame f s) * (?q / 4) ^ length fs"
    using lo q by (intro mult_right_mono) simp_all
  finally have a: "velocity s * (?q / 4) ^ length (f # fs) \<le> velocity (runFrames (f # fs) s)"
    using ih(1) by (simp add: runFrames_def)
  have "velocity (useFrame f s) * ?q ^ length fs \<le> (velocity s * ?q) * ?q ^ length fs"
    using hi q by (intro mult_right_mono) simp_all
  then have b: "velocity (runFrames (f # fs) s) \<le> velocity s * ?q ^ length (f # fs)"
    using ih(2) by (simp add: runFrames_def mult.assoc)
  from a b show ?case by blast
qed

text \<open>
  STOP frames from the mount position, heading along the gap: nothing but the integrator
  and the move acts, and the state after a frame is the mounted state with a new depth and
  forward velocity.
\<close>

lemma stop_frame_at_origin:
  assumes "\<bar>z\<bar> < 13 / 20" "\<bar>z - 29 * v / 1800\<bar> \<le> 68 / 5"
  shows "useFrame (frameAt t STOP tp) (restState\<lparr>pos_z := z, velocity := v\<rparr>)
      = restState\<lparr>pos_z := z - 29 * v / 1800, velocity := 29 * v / 30\<rparr>"
    and "reactiveStop (frameAt t STOP tp) (restState\<lparr>pos_z := z, velocity := v\<rparr>)"
proof -
  define s where "s = restState\<lparr>pos_z := z, velocity := v\<rparr>"
  define f where "f = frameAt t STOP tp"
  have nd: "normalizedDelta s = 0" by (simp add: normalizedDelta_def s_def restState_def)
  have tr: "trackRotation s = s" by (simp add: trackRotation_def nd) (simp add: s_def restState_def)
  have aa: "afterActivation f s = s"
    by (simp add: afterActivation_def tr activatePathfinding_def activateExploration_def)
      (simp add: s_def restState_def)
  have off: "\<not> pathfindingMode (afterActivation f s)" by (simp add: aa) (simp add: s_def restState_def)
  have hit: "\<not> checkCollisions (0, 0, z) []"
    using assms(1) by (simp add: checkCollisions_def AGENT_RADIUS_def Let_def)
  have bm: "beforeMove f 0 s = restState\<lparr>pos_z := z, velocity := 29 * v / 30\<rparr>"
    using hit
    by (simp add: beforeMove_def explorationStep_def updateCooldowns_def collisionStep_def
        accumulateScan_def updateMovement_def s_def f_def restState_def frameAt_def
        flipCommand_def targetVel_def targetRot_def lerp_def Let_def)
  have am: "applyMovement (delta f) (restState\<lparr>pos_z := z, velocity := 29 * v / 30\<rparr>)
      = restState\<lparr>pos_z := z - 29 * v / 1800, velocity := 29 * v / 30\<rparr>"
    by (simp add: applyMovement_def translateZ_def f_def frameAt_def restState_def Let_def)
  have sb: "softBoundary (restState\<lparr>pos_z := z - 29 * v / 1800, velocity := 29 * v / 30\<rparr>)
      = restState\<lparr>pos_z := z - 29 * v / 1800, velocity := 29 * v / 30\<rparr>"
    using assms(2) by (intro softBoundary_inside) (simp_all add: restState_def)
  have "useFrame f s = restState\<lparr>pos_z := z - 29 * v / 1800, velocity := 29 * v / 30\<rparr>"
    unfolding useFrame_normal [OF off] aa nd
    by (simp add: restOfFrame_def Let_def)
      (simp add: bm [unfolded beforeMove_def Let_def] am sb)
  then show "useFrame (frameAt t STOP tp) (restState\<lparr>pos_z := z, velocity := v\<rparr>)
      = restState\<lparr>pos_z := z - 29 * v / 1800, velocity := 29 * v / 30\<rparr>"
    by (simp only: s_def f_def)
  have ri: "restInput f s = s" using off by (simp add: restInput_def aa)
  have nf: "\<not> followsPath f s" using off by (simp add: followsPath_def)
  have "reactiveStop f s"
    unfolding reactiveStop_def rebounds_def ri
    using hit nf
    by (simp add: explorationStep_def updateCooldowns_def s_def f_def restState_def frameAt_def
        Let_def)
  then show "reactiveStop (frameAt t STOP tp) (restState\<lparr>pos_z := z, velocity := v\<rparr>)"
    by (simp only: s_def f_def)
qed

lemma reactiveStopRun_snoc:
  "reactiveStopRun (fs @ [f]) s = (reactiveStopRun fs s \<and> reactiveStop f (runFrames fs s))"
  by (induction fs arbitrary: s) (simp_all add: runFrames_def)

lemma framesAt_Suc:
  "framesAt (Suc n) a tp = framesAt n a tp @ [frameAt (real (Suc n) / 60) a tp]"
  by (simp add: framesAt_def)

lemma stop_run_at_origin:
  "runFrames (framesAt n STOP tp) (restState\<lparr>velocity := 1\<rparr>)
     = restState\<lparr>pos_z := - (29 / 60) * (1 - (29 / 30) ^ n), velocity := (29 / 30) ^ n\<rparr>
   \<and> reactiveStopRun (framesAt n STOP tp) (restState\<lparr>velocity := 1\<rparr>)"
proof (induction n)
  case 0
  show ?case by (simp add: runFrames_0) (simp add: framesAt_def restState_def)
next
  case (Suc n)
  define q where "q = (29 / 30 :: real) ^ n"
  have q: "0 < q" "q \<le> 1" by (simp_all add: q_def power_le_one)
  have b1: "\<bar>- (29 / 60) * (1 - q)\<bar> < 13 / 20"
    using q by (simp add: abs_less_iff)
  have b2: "\<bar>- (29 / 60) * (1 - q) - 29 * q / 1800\<bar> \<le> 68 / 5"
    using q by (simp add: abs_le_iff diff_divide_distrib)
  have ih: "runFrames (framesAt n STOP tp) (restState\<lparr>velocity := 1\<rparr>)
      = restState\<lparr>pos_z := - (29 / 60) * (1 - q), velocity := q\<rparr>"
    "reactiveStopRun (framesAt n STOP tp) (restState\<lparr>velocity := 1\<rparr>)"
    using Suc.IH by (simp_all only: q_def)
  have "runFrames (framesAt (Suc n) STOP tp) (restState\<lparr>velocity := 1\<rparr>)
      = restState\<lparr>pos_z := - (29 / 60) * (1 - q) - 29 * q / 1800, velocity := 29 * q / 30\<rparr>"
    unfolding runFrames_Suc ih(1) by (rule stop_frame_at_origin(1) [OF b1 b2])
  then have run: "runFrames (framesAt (Suc n) STOP tp) (restState\<lparr>velocity := 1\<rparr>)
      = restState\<lparr>pos_z := - (29 / 60) * (1 - (29 / 30) ^ Suc n),
          velocity := (29 / 30) ^ Suc n\<rparr>"
    by (simp add: q_def field_simps)
  have "reactiveStopRun (framesAt (Suc n) STOP tp) (restState\<lparr>velocity := 1\<rparr>)"
    unfolding framesAt_Suc reactiveStopRun_snoc ih(1)
    using ih(2) stop_frame_at_origin(2) [OF b1 b2] by simp
  with run show ?case by (simp only: simp_thms)
qed

lemma sqrt_25: "sqrt 25 = 5"
  by (rule real_sqrt_unique) simp_all

text \<open>Three frames under STOP in which the forward velocity rises from 0.\<close>

lemma stop_rebound_example:
  "velocity (useFrame (frameAt 1 STOP None) (restState\<lparr>pos_x := 5\<rparr>)) = 29 / 20"
proof -
  define s where "s = restState\<lparr>pos_x := 5\<rparr>"
  define f where "f = frameAt 1 STOP None"
  have aa: "afterActivation f s = trackRotation s"
    by (simp add: afterActivation_def activatePathfinding_def activateExploration_def
        trackRotation_def normalizedDelta_def s_def f_def restState_def frameAt_def)
  have off: "\<not> pathfindingMode (afterActivation f s)"
    unfolding aa by (simp add: s_def restState_def)
  have bm: "velocity (beforeMove f (normalizedDelta s) (trackRotation s)) = 29 / 20"
    "pos_x (beforeMove f (normalizedDelta s) (trackRotation s)) = 5"
    "pos_z (beforeMove f (normalizedDelta s) (trackRotation s)) = 0"
    by (simp_all add: beforeMove_def explorationStep_def updateCooldowns_def collisionStep_def
        accumulateScan_def updateMovement_def trackRotation_def s_def f_def restState_def
        frameAt_def flipCommand_def checkCollisions_def AGENT_RADIUS_def targetVel_def
        targetRot_def lerp_def Let_def)
  have d: "delta f = 1 / 60" by (simp add: f_def frameAt_def)
  have "velocity (useFrame f s) = 29 / 20"
    unfolding useFrame_normal [OF off] aa
    by (subst restOfFrame_inside(1)) (simp_all add: bm d)
  then show ?thesis by (simp only: s_def f_def)
qed

lemma stop_exploring_example:
  "velocity (useFrame (frameAt 1 STOP None) (restState\<lparr>explorationMode := True\<rparr>)) = 29 / 20"
proof -
  define s where "s = restState\<lparr>explorationMode := True\<rparr>"
  define f where "f = frameAt 1 STOP None"
  have aa: "afterActivation f s = trackRotation s"
    by (rule afterActivation_exploring) (simp_all add: s_def f_def restState_def frameAt_def)
  have off: "\<not> pathfindingMode (afterActivation f s)"
    unfolding aa by (simp add: s_def restState_def)
  have bm: "velocity (beforeMove f (normalizedDelta s) (trackRotation s)) = 29 / 20"
    "pos_x (beforeMove f (normalizedDelta s) (trackRotation s)) = 0"
    "pos_z (beforeMove f (normalizedDelta s) (trackRotation s)) = 0"
    by (simp_all add: beforeMove_def explorationStep_def updateCooldowns_def collisionStep_def
        accumulateScan_def updateMovement_def trackRotation_def s_def f_def restState_def
        frameAt_def flipCommand_def checkCollisions_def AGENT_RADIUS_def targetVel_def
        targetRot_def lerp_def Let_def)
  have d: "delta f = 1 / 60" by (simp add: f_def frameAt_def)
  have "velocity (useFrame f s) = 29 / 20"
    unfolding useFrame_normal [OF off] aa
    by (subst restOfFrame_inside(1)) (simp_all add: bm d)
  then show ?thesis by (simp only: s_def f_def)
qed

lemma stop_following_example:
  "velocity (useFrame (frameAt 1 STOP (Some (0, 0, - 5)))
      (restState\<lparr>pathfindingMode := True, currentPath := findPathThroughGap 0 0 south,
         currentPathIndex := 1\<rparr>)) = 1 / 4"
proof -
  define s where "s = restState\<lparr>pathfindingMode := True,
      currentPath := findPathThroughGap 0 0 south, currentPathIndex := 1\<rparr>"
  define f where "f = frameAt 1 STOP (Some (0, 0, - 5))"
  have aa: "afterActivation f s = trackRotation s"
    by (rule afterActivation_following) (simp_all add: s_def f_def restState_def frameAt_def)
  have on: "pathfindingMode (afterActivation f s)"
    unfolding aa by (simp add: s_def restState_def)
  have fp: "followPath (trackRotation s) = (FORWARD, trackRotation s)"
    by (simp add: followPath_def trackRotation_def s_def restState_def findPathThroughGap_def
        determineAgentSide_def calculateAngleToWaypoint_def atan2_def Let_def)
  have go: "fst (followPath (afterActivation f s)) \<noteq> STOP" unfolding aa fp by simp
  have "velocity (pathfindingMove (delta f) FORWARD (trackRotation s)) = 1 / 4"
    by (simp add: pathfindingMove_def updateMovement_def flipCommand_def targetVel_def
        targetRot_def MAX_SPEED_def lerp_def trackRotation_def s_def f_def restState_def
        frameAt_def findPathThroughGap_def determineAgentSide_def sqrt_25 checkCollisions_def
        AGENT_RADIUS_def Let_def)
  then have "velocity (useFrame f s) = 1 / 4"
    unfolding useFrame_follow [OF on go] aa fp by simp
  then show ?thesis by (simp only: s_def f_def)
qed

text \<open>
  Two long frames: with a frame time of one second STOP takes the forward velocity from 1
  to \<open>-1\<close>, and with a frame time of half a second RIGHT takes the angular velocity from
  \<open>0.675\<close> to \<open>-2.025\<close>.
\<close>

lemma long_stop_frame_example:
  "velocity (useFrame \<lparr>delta = 1, elapsedTime = 1, action = STOP, targetPosition = None\<rparr>
      (restState\<lparr>velocity := 1\<rparr>)) = - 1"
proof -
  define s where "s = restState\<lparr>velocity := 1\<rparr>"
  define f where "f = \<lparr>delta = 1, elapsedTime = 1, action = STOP, targetPosition = None\<rparr>"
  have aa: "afterActivation f s = trackRotation s"
    by (simp add: afterActivation_def activatePathfinding_def activateExploration_def
        trackRotation_def normalizedDelta_def s_def f_def restState_def)
  have off: "\<not> pathfindingMode (afterActivation f s)"
    unfolding aa by (simp add: s_def restState_def)
  have bm: "velocity (beforeMove f (normalizedDelta s) (trackRotation s)) = - 1"
    "pos_x (beforeMove f (normalizedDelta s) (trackRotation s)) = 0"
    "pos_z (beforeMove f (normalizedDelta s) (trackRotation s)) = 0"
    by (simp_all add: beforeMove_def explorationStep_def updateCooldowns_def collisionStep_def
        accumulateScan_def updateMovement_def trackRotation_def s_def f_def restState_def
        flipCommand_def checkCollisions_def AGENT_RADIUS_def targetVel_def
        targetRot_def lerp_def Let_def)
  have d: "delta f = 1" by (simp add: f_def)
  have "velocity (useFrame f s) = - 1"
    unfolding useFrame_normal [OF off] aa
    by (subst restOfFrame_inside(1)) (simp_all add: bm d)
  then show ?thesis by (simp only: s_def f_def)
qed

lemma long_turn_frame_example:
  "rotationVelocity
     (useFrame \<lparr>delta = 1 / 2, elapsedTime = 1, action = RIGHT, targetPosition = None\<rparr>
        (restState\<lparr>rotationVelocity := 0.675\<rparr>)) = - 2.025"
proof -
  define s where "s = restState\<lparr>rotationVelocity := 0.675\<rparr>"
  define f where
    "f = \<lparr>delta = 1 / 2, elapsedTime = 1, action = RIGHT, targetPosition = None\<rparr>"
  have aa: "afterActivation f s = trackRotation s"
    by (simp add: afterActivation_def activatePathfinding_def activateExploration_def
        trackRotation_def normalizedDelta_def s_def f_def restState_def)
  have off: "\<not> pathfindingMode (afterActivation f s)"
    unfolding aa by (simp add: s_def restState_def)
  have bm: "rotationVelocity (beforeMove f (normalizedDelta s) (trackRotation s)) = - 2.025"
    "velocity (beforeMove f (normalizedDelta s) (trackRotation s)) = 0"
    "pos_x (beforeMove f (normalizedDelta s) (trackRotation s)) = 0"
    "pos_z (beforeMove f (normalizedDelta s) (trackRotation s)) = 0"
    by (simp_all add: beforeMove_def explorationStep_def updateCooldowns_def collisionStep_def
        accumulateScan_def updateMovement_def trackRotation_def s_def f_def restState_def
        flipCommand_def checkCollisions_def AGENT_RADIUS_def targetVel_def
        targetRot_def ROT_SPEED_def lerp_def Let_def)
  have d: "delta f = 1 / 2" by (simp add: f_def)
  have "rotationVelocity (useFrame f s) = - 2.025"
    unfolding useFrame_normal [OF off] aa
    by (subst restOfFrame_inside(2)) (simp_all add: bm d)
  then show ?thesis by (simp only: s_def f_def)
qed

subsection \<open>The bounds of a mode over a frame\<close>

lemma explorationStep_mode_velocity:
  "0 \<le> velocity s \<and> velocity s \<le> 2.5 \<Longrightarrow>
   0 \<le> velocity (explorationStep f s) \<and> velocity (explorationStep f s) \<le> 2.5"
  by (simp add: explorationStep_def Let_def)

lemma collisionStep_mode_velocity:
  "0 \<le> velocity s \<and> velocity s \<le> 2.5 \<Longrightarrow>
   0 \<le> velocity (collisionStep s) \<and> velocity (collisionStep s) \<le> 2.5"
  by (simp add: collisionStep_def Let_def min_def)

lemma updateMovement_mode_velocity:
  assumes "0 \<le> dt" "dt \<le> 1 / 2"
    and "0 \<le> velocity s \<and> velocity s \<le> MAX_SPEED (pathfindingMode s)"
  shows "0 \<le> velocity (updateMovement dt a s)
     \<and> velocity (updateMovement dt a s) \<le> MAX_SPEED (pathfindingMode s)"
proof -
  have M: "0 \<le> MAX_SPEED (pathfindingMode s)" by (simp add: MAX_SPEED_def)
  have tv: "0 \<le> targetVel s a \<and> targetVel s a \<le> MAX_SPEED (pathfindingMode s)"
    using assms M by (cases a) (simp_all add: targetVel_def)
  have "0 \<le> lerp (velocity s) (targetVel s a) (dt * 2)
      \<and> lerp (velocity s) (targetVel s a) (dt * 2) \<le> MAX_SPEED (pathfindingMode s)"
    using assms tv by (intro lerp_between) simp_all
  then show ?thesis by (simp add: updateMovement_def)
qed

lemma softBoundary_mode_velocity:
  "0 \<le> velocity s \<and> velocity s \<le> b \<Longrightarrow>
   0 \<le> velocity (softBoundary s) \<and> velocity (softBoundary s) \<le> b"
  by (simp add: softBoundary_def Let_def)

lemma restOfFrame_mode_velocity:
  assumes "0 \<le> delta f" "delta f \<le> 1 / 2" "\<not> pathfindingMode s"
    and "0 \<le> velocity s \<and> velocity s \<le> 2.5"
  shows "0 \<le> velocity (restOfFrame f nd s) \<and> velocity (restOfFrame f nd s) \<le> 2.5"
proof -
  let ?s3 = "collisionStep (updateCooldowns (delta f) (explorationStep f s))"
  let ?s4 = "accumulateScan f nd ?s3"
  have "0 \<le> velocity ?s3 \<and> velocity ?s3 \<le> 2.5"
    using explorationStep_mode_velocity [OF assms(4), of f]
    by (intro collisionStep_mode_velocity) simp
  moreover have m: "\<not> pathfindingMode ?s4" using assms(3) by simp
  ultimately have "0 \<le> velocity ?s4 \<and> velocity ?s4 \<le> MAX_SPEED (pathfindingMode ?s4)"
    by (simp add: MAX_SPEED_def)
  from updateMovement_mode_velocity [OF assms(1) assms(2) this] m
  have "0 \<le> velocity (updateMovement (delta f) (flipCommand (useRearView ?s3) (action f)) ?s4)
     \<and> velocity (updateMovement (delta f) (flipCommand (useRearView ?s3) (action f)) ?s4) \<le> 2.5"
    by (simp add: MAX_SPEED_def)
  then show ?thesis
    unfolding restOfFrame_def Let_def
    by (intro softBoundary_mode_velocity) simp
qed

lemma pathfindingMove_collision:
  "pathfindingMode s \<Longrightarrow> \<not> pathfindingMode (pathfindingMove dt a s) \<Longrightarrow>
   velocity (pathfindingMove dt a s) = 0"
  by (simp add: pathfindingMove_def Let_def split: if_splits)

lemma afterActivation_mode_kept: "pathfindingMode s \<Longrightarrow> pathfindingMode (afterActivation f s)"
  by (simp add: afterActivation_mode del: not_None_eq)

lemma useFrame_mode_velocity:
  assumes "0 \<le> delta f" "delta f \<le> 1 / 2" "0 \<le> velocity s"
    and "velocity s \<le> MAX_SPEED (pathfindingMode s)"
    and "completesPath f s \<Longrightarrow> velocity s \<le> MAX_SPEED False"
  shows "0 \<le> velocity (useFrame f s)
     \<and> velocity (useFrame f s) \<le> MAX_SPEED (pathfindingMode (useFrame f s))"
proof (cases "pathfindingMode (afterActivation f s)")
  case False
  then have "\<not> pathfindingMode s" using afterActivation_mode_kept [of s f] by blast
  with assms(4) have v: "velocity s \<le> 2.5" by (simp add: MAX_SPEED_def)
  have "0 \<le> velocity (restOfFrame f (normalizedDelta s) (afterActivation f s))
     \<and> velocity (restOfFrame f (normalizedDelta s) (afterActivation f s)) \<le> 2.5"
    using assms(1-3) v False
    by (intro restOfFrame_mode_velocity) (simp_all add: afterActivation_velocity)
  then show ?thesis
    unfolding useFrame_normal [OF False] using False
    by (simp add: restOfFrame_fields MAX_SPEED_def)
next
  case True
  let ?a = "afterActivation f s"
  show ?thesis
  proof (cases "fst (followPath ?a) = STOP")
    case True
    let ?c = "(snd (followPath ?a))\<lparr>pathfindingMode := False, totalRotation := 0\<rparr>"
    have "completesPath f s" using \<open>pathfindingMode ?a\<close> True by (simp add: completesPath_def)
    then have v: "velocity s \<le> 2.5" using assms(5) by (simp add: MAX_SPEED_def)
    have "0 \<le> velocity (restOfFrame f (normalizedDelta s) ?c)
       \<and> velocity (restOfFrame f (normalizedDelta s) ?c) \<le> 2.5"
      using assms(1-3) v
      by (intro restOfFrame_mode_velocity) (simp_all add: afterActivation_velocity)
    then show ?thesis
      unfolding useFrame_complete [OF \<open>pathfindingMode ?a\<close> True]
      by (simp add: restOfFrame_fields MAX_SPEED_def)
  next
    case False
    let ?p = "pathfindingMove (delta f) (fst (followPath ?a)) (snd (followPath ?a))"
    have on: "pathfindingMode (snd (followPath ?a))"
      using \<open>pathfindingMode ?a\<close> False by (simp add: followPath_continues)
    have "velocity s \<le> 7.5" using assms(4) by (simp add: MAX_SPEED_def split: if_splits)
    then have b: "0 \<le> velocity ?p \<and> velocity ?p \<le> 7.5"
      using assms(1-3)
      by (intro pathfindingMove_velocity) (simp_all add: afterActivation_velocity)
    have "velocity ?p \<le> MAX_SPEED (pathfindingMode ?p)"
    proof (cases "pathfindingMode ?p")
      case True
      with b show ?thesis by (simp add: MAX_SPEED_def)
    next
      case False
      from pathfindingMove_collision [OF on False] show ?thesis by (simp add: MAX_SPEED_def)
    qed
    with b show ?thesis
      unfolding useFrame_follow [OF \<open>pathfindingMode ?a\<close> False] by simp
  qed
qed

text \<open>The angular velocity, block by block.\<close>

lemma rotationVelocity_unchanged [simp]:
  "rotationVelocity (trackRotation s) = rotationVelocity s"
  "rotationVelocity (activatePathfinding f s) = rotationVelocity s"
  "rotationVelocity (activateExploration f s) = rotationVelocity s"
  "rotationVelocity (updateCooldowns dt s) = rotationVelocity s"
  "rotationVelocity (accumulateScan f nd s) = rotationVelocity s"
  "rotationVelocity (snd (followPath s)) = rotationVelocity s"
  by (simp_all add: trackRotation_def activatePathfinding_def activateExploration_def
      updateCooldowns_def accumulateScan_def followPath_def Let_def)

lemma afterActivation_rotationVelocity:
  "rotationVelocity (afterActivation f s) = rotationVelocity s"
  by (simp add: afterActivation_def)

lemma explorationStep_rot:
  assumes "\<bar>rotationVelocity s\<bar> \<le> b" "0 \<le> b"
    and "explorationMode s \<and> \<not> pathfindingMode s \<and> explorationPhase s = 1 \<Longrightarrow> 1 \<le> b"
  shows "\<bar>rotationVelocity (explorationStep f s)\<bar> \<le> b"
  using assms by (auto simp: explorationStep_def Let_def)

lemma collisionStep_rot:
  assumes "\<bar>rotationVelocity s\<bar> \<le> b"
  shows "\<bar>rotationVelocity (collisionStep s)\<bar> \<le> b"
proof -
  have "\<bar>rotationVelocity s * 0.3\<bar> \<le> \<bar>rotationVelocity s\<bar>" by (simp add: abs_mult)
  with assms show ?thesis by (simp add: collisionStep_def Let_def)
qed

lemma updateMovement_rot:
  assumes "0 \<le> dt" "dt \<le> 1 / 4" "\<bar>rotationVelocity s\<bar> \<le> b" "ROT_SPEED * 0.8 * 1.5 \<le> b"
  shows "\<bar>rotationVelocity (updateMovement dt a s)\<bar> \<le> b"
proof -
  have tr: "- b \<le> targetRot a \<and> targetRot a \<le> b"
    using assms(4) by (cases a) (simp_all add: targetRot_def ROT_SPEED_def)
  have "- b \<le> lerp (rotationVelocity s) (targetRot a) (dt * 4)
      \<and> lerp (rotationVelocity s) (targetRot a) (dt * 4) \<le> b"
    using assms tr by (intro lerp_between) simp_all
  then show ?thesis by (simp add: updateMovement_def abs_le_iff)
qed

lemma beforeMove_rot:
  assumes "0 \<le> delta f" "delta f \<le> 1 / 4" "\<bar>rotationVelocity s\<bar> \<le> b"
    and "ROT_SPEED * 0.8 * 1.5 \<le> b"
    and "explorationMode s \<and> \<not> pathfindingMode s \<and> explorationPhase s = 1 \<Longrightarrow> 1 \<le> b"
  shows "\<bar>rotationVelocity (beforeMove f nd s)\<bar> \<le> b"
proof -
  have b0: "0 \<le> b" using assms(4) by (simp add: ROT_SPEED_def)
  let ?s3 = "collisionStep (updateCooldowns (delta f) (explorationStep f s))"
  have "\<bar>rotationVelocity (explorationStep f s)\<bar> \<le> b"
    using assms(3) b0 assms(5) by (rule explorationStep_rot)
  then have "\<bar>rotationVelocity ?s3\<bar> \<le> b" by (intro collisionStep_rot) simp
  then have "\<bar>rotationVelocity (accumulateScan f nd ?s3)\<bar> \<le> b" by simp
  from updateMovement_rot [OF assms(1) assms(2) this assms(4)]
  show ?thesis by (simp add: beforeMove_def Let_def)
qed

lemma pathfindingMove_rot:
  assumes "0 \<le> dt" "dt \<le> 1 / 4" "\<bar>rotationVelocity s\<bar> \<le> b" "ROT_SPEED * 0.8 * 1.5 \<le> b"
  shows "\<bar>rotationVelocity (pathfindingMove dt a s)\<bar> \<le> b"
proof -
  have b0: "0 \<le> b" using assms(4) by (simp add: ROT_SPEED_def)
  from updateMovement_rot [OF assms, of "flipCommand (useRearView s) a"] b0
  show ?thesis by (simp add: pathfindingMove_def Let_def)
qed

lemma softBoundary_rot: "\<bar>rotationVelocity (softBoundary m)\<bar> \<le> \<bar>rotationVelocity m\<bar> + 1"
  by (auto simp: softBoundary_def Let_def)

lemma softBoundary_pos:
  "\<bar>pos_x (softBoundary m)\<bar> \<le> \<bar>pos_x m\<bar>" "\<bar>pos_z (softBoundary m)\<bar> \<le> \<bar>pos_z m\<bar>"
  by (auto simp: softBoundary_def Let_def AGENT_RADIUS_def clamp_def min_def max_def)

lemma restOfFrame_unfold:
  "restOfFrame f nd s = softBoundary (applyMovement (delta f) (beforeMove f nd s))"
  by (simp add: restOfFrame_def beforeMove_def Let_def)

lemma restOfFrame_pos:
  "\<bar>pos_x (restOfFrame f nd s)\<bar>
     \<le> \<bar>pos_x (beforeMove f nd s)\<bar> + \<bar>velocity (beforeMove f nd s) * delta f\<bar>"
  "\<bar>pos_z (restOfFrame f nd s)\<bar>
     \<le> \<bar>pos_z (beforeMove f nd s)\<bar> + \<bar>velocity (beforeMove f nd s) * delta f\<bar>"
  unfolding restOfFrame_unfold
  using softBoundary_pos [of "applyMovement (delta f) (beforeMove f nd s)"]
    applyMovement_pos [of "delta f" "beforeMove f nd s"]
  by linarith+

lemma restOfFrame_rot:
  assumes "0 \<le> delta f" "delta f \<le> 1 / 4" "\<bar>rotationVelocity s\<bar> \<le> b"
    and "ROT_SPEED * 0.8 * 1.5 \<le> b"
    and "explorationMode s \<and> \<not> pathfindingMode s \<and> explorationPhase s = 1 \<Longrightarrow> 1 \<le> b"
  shows "\<bar>rotationVelocity (restOfFrame f nd s)\<bar> \<le> b + 1"
    and "\<bar>pos_x (restOfFrame f nd s)\<bar> < 13.6 \<Longrightarrow> \<bar>pos_z (restOfFrame f nd s)\<bar> < 13.6 \<Longrightarrow>
       \<bar>rotationVelocity (restOfFrame f nd s)\<bar> \<le> b"
proof -
  let ?m = "applyMovement (delta f) (beforeMove f nd s)"
  have m: "\<bar>rotationVelocity ?m\<bar> \<le> b"
    using beforeMove_rot [OF assms, of nd] by simp
  show "\<bar>rotationVelocity (restOfFrame f nd s)\<bar> \<le> b + 1"
    unfolding restOfFrame_unfold using softBoundary_rot [of ?m] m by linarith
  show "\<bar>rotationVelocity (restOfFrame f nd s)\<bar> \<le> b"
    if "\<bar>pos_x (restOfFrame f nd s)\<bar> < 13.6" "\<bar>pos_z (restOfFrame f nd s)\<bar> < 13.6"
  proof -
    have "softBoundary ?m = ?m"
      using that unfolding restOfFrame_unfold by (rule softBoundary_strictly_inside)
    with m show ?thesis unfolding restOfFrame_unfold by simp
  qed
qed

lemma useFrame_rot:
  assumes "0 \<le> delta f" "delta f \<le> 1 / 4" "\<bar>rotationVelocity s\<bar> \<le> b"
    and "ROT_SPEED * 0.8 * 1.5 \<le> b"
    and "turnsInExploration f s \<Longrightarrow> 1 \<le> b"
  shows "\<bar>rotationVelocity (useFrame f s)\<bar> \<le> b + 1"
    and "followsPath f s
        \<or> \<bar>pos_x (useFrame f s)\<bar> < 13.6 \<and> \<bar>pos_z (useFrame f s)\<bar> < 13.6 \<Longrightarrow>
       \<bar>rotationVelocity (useFrame f s)\<bar> \<le> b"
proof -
  let ?a = "afterActivation f s"
  have b0: "0 \<le> b" using assms(4) by (simp add: ROT_SPEED_def)
  have ra: "\<bar>rotationVelocity ?a\<bar> \<le> b"
    using assms(3) by (simp add: afterActivation_rotationVelocity)
  consider (normal) "\<not> pathfindingMode ?a"
    | (complete) "pathfindingMode ?a" "fst (followPath ?a) = STOP"
    | (follow) "pathfindingMode ?a" "fst (followPath ?a) \<noteq> STOP" by blast
  then have "\<bar>rotationVelocity (useFrame f s)\<bar> \<le> b + 1
     \<and> (followsPath f s
          \<or> \<bar>pos_x (useFrame f s)\<bar> < 13.6 \<and> \<bar>pos_z (useFrame f s)\<bar> < 13.6 \<longrightarrow>
        \<bar>rotationVelocity (useFrame f s)\<bar> \<le> b)"
  proof cases
    case normal
    have nf: "\<not> followsPath f s" using normal by (simp add: followsPath_def)
    have t: "explorationMode ?a \<and> \<not> pathfindingMode ?a \<and> explorationPhase ?a = 1 \<Longrightarrow> 1 \<le> b"
      using assms(5) nf by (simp add: turnsInExploration_def)
    note r = restOfFrame_rot [OF assms(1) assms(2) ra assms(4) t, of "normalizedDelta s"]
    show ?thesis
      unfolding useFrame_normal [OF normal] using r nf by blast
  next
    case complete
    let ?c = "(snd (followPath ?a))\<lparr>pathfindingMode := False, totalRotation := 0\<rparr>"
    have nf: "\<not> followsPath f s" using complete by (simp add: followsPath_def)
    have rc: "\<bar>rotationVelocity ?c\<bar> \<le> b" using ra by simp
    have t: "explorationMode ?c \<and> \<not> pathfindingMode ?c \<and> explorationPhase ?c = 1 \<Longrightarrow> 1 \<le> b"
      using assms(5) nf by (simp add: turnsInExploration_def followPath_fields)
    note r = restOfFrame_rot [OF assms(1) assms(2) rc assms(4) t, of "normalizedDelta s"]
    show ?thesis
      unfolding useFrame_complete [OF complete] using r nf by blast
  next
    case follow
    have "\<bar>rotationVelocity (snd (followPath ?a))\<bar> \<le> b" using ra by simp
    from pathfindingMove_rot [OF assms(1) assms(2) this assms(4), of "fst (followPath ?a)"]
    show ?thesis
      unfolding useFrame_follow [OF follow] by simp
  qed
  then show "\<bar>rotationVelocity (useFrame f s)\<bar> \<le> b + 1"
    and "followsPath f s
        \<or> \<bar>pos_x (useFrame f s)\<bar> < 13.6 \<and> \<bar>pos_z (useFrame f s)\<bar> < 13.6 \<Longrightarrow>
       \<bar>rotationVelocity (useFrame f s)\<bar> \<le> b"
    by blast+
qed

text \<open>
  A frame at the east boundary: the agent stands on the clamp line heading outward, the
  move takes it past the line, and the clamp adds 0.5 to the angular velocity.
\<close>

lemma softBoundary_east:
  assumes "pos_x m > 13.6" "\<bar>pos_z m\<bar> \<le> 13.6"
  shows "rotationVelocity (softBoundary m) = rotationVelocity m + 0.5"
  using assms by (simp add: softBoundary_def Let_def AGENT_RADIUS_def clamp_def)

lemma applyMovement_east:
  assumes "\<not> useRearView s" "0 < velocity s" "0 < dt"
    and "sin (rotation_y s + rotationVelocity s * dt) < 0"
  shows "pos_x (applyMovement dt s) > pos_x s"
proof -
  have "- velocity s * dt < 0" using assms(2,3) by simp
  from mult_neg_neg [OF this assms(4)] show ?thesis
    using assms(1) by (simp add: applyMovement_def translateZ_def Let_def)
qed

lemma clamp_frame_example:
  "rotationVelocity (useFrame (frameAt 1 LEFT None)
      (restState\<lparr>pos_x := 13.6, pos_z := 5, rotation_y := - 1, lastRotationAngle := - 1,
         velocity := 1, rotationVelocity := 0.675, collisionCooldown := 0.5\<rparr>)) = 1.175"
proof -
  define s where "s = restState\<lparr>pos_x := 13.6, pos_z := 5, rotation_y := - 1,
      lastRotationAngle := - 1, velocity := 1, rotationVelocity := 0.675,
      collisionCooldown := 0.5\<rparr>"
  define f where "f = frameAt 1 LEFT None"
  define b where "b = beforeMove f (normalizedDelta s) (afterActivation f s)"
  have nd: "normalizedDelta s = 0"
    using pi_gt_zero by (simp add: normalizedDelta_def s_def restState_def)
  have aa: "afterActivation f s = trackRotation s"
    by (simp add: afterActivation_def activatePathfinding_def activateExploration_def
        trackRotation_def nd) (simp add: s_def restState_def)
  have off: "\<not> pathfindingMode (afterActivation f s)"
    unfolding aa by (simp add: s_def restState_def)
  have bm: "rotationVelocity b = 27 / 40" "velocity b = 59 / 60" "pos_x b = 68 / 5"
    "pos_z b = 5" "rotation_y b = - 1" "\<not> useRearView b"
    unfolding b_def aa
    by (simp_all add: beforeMove_def explorationStep_def updateCooldowns_def collisionStep_def
        accumulateScan_def updateMovement_def trackRotation_def nd s_def f_def restState_def
        frameAt_def flipCommand_def targetVel_def targetRot_def ROT_SPEED_def lerp_def Let_def)
  have d: "delta f = 1 / 60" by (simp add: f_def frameAt_def)
  have "0 < sin (791 / 800 :: real)"
    using pi_ge_two by (intro sin_gt_zero) simp_all
  then have "sin (- (791 / 800) :: real) < 0" by simp
  moreover have "rotation_y b + rotationVelocity b * (1 / 60) = - (791 / 800)"
    by (simp add: bm)
  ultimately have sn: "sin (rotation_y b + rotationVelocity b * (1 / 60)) < 0" by simp
  have x: "pos_x (applyMovement (1 / 60) b) > 13.6"
    using applyMovement_east [OF bm(6) _ _ sn] by (simp add: bm)
  have z: "\<bar>pos_z (applyMovement (1 / 60) b)\<bar> \<le> 13.6"
    using applyMovement_pos(2) [of "1 / 60" b] by (simp add: bm)
  have "rotationVelocity (useFrame f s) = rotationVelocity (applyMovement (1 / 60) b) + 0.5"
    unfolding useFrame_normal [OF off] restOfFrame_unfold d b_def [symmetric]
    using x z by (rule softBoundary_east)
  then have "rotationVelocity (useFrame f s) = 1.175" by (simp add: bm)
  then show ?thesis by (simp only: s_def f_def)
qed

subsection \<open>The command mapper\<close>

text \<open>
  C10. The rear-view command remapping is an involution: applying \<open>flipCommand\<close> twice with
  the same rear-view state gives the command back. With the rear view off it is the
  identity; with the rear view on it swaps LEFT and RIGHT and leaves FORWARD, STOP, SCAN
  and IDLE as they are.
\<close>

theorem flipCommand_involution:
  "flipCommand rear (flipCommand rear cmd) = cmd
   \<and> flipCommand False cmd = cmd
   \<and> flipCommand True LEFT = RIGHT
   \<and> flipCommand True RIGHT = LEFT
   \<and> flipCommand True FORWARD = FORWARD
   \<and> flipCommand True STOP = STOP
   \<and> flipCommand True SCAN = SCAN
   \<and> flipCommand True IDLE = IDLE"
  by (cases cmd) (simp_all add: flipCommand_def)

subsection \<open>The collision detector and the central wall\<close>

text \<open>
  C1, as the source has it. For a position whose depth coordinate is in the band of the
  central wall (\<open>|z| < AGENT_RADIUS + 0.25\<close>), \<open>checkCollisions\<close> reports a collision exactly
  when the lateral coordinate is within a solid segment widened by the agent's radius on
  each side (\<open>|x \<plusminus> 11.5| < 8.5 + AGENT_RADIUS\<close>, that is \<open>2.6 < |x| < 20.4\<close>), or, beyond the
  wall's outer ends, when a target is hit. In particular there is no collision for
  \<open>|x| \<le> 3 - AGENT_RADIUS\<close>, the gap narrowed by the agent's radius.
\<close>

theorem checkCollisions_central_wall:
  "\<bar>z\<bar> < AGENT_RADIUS + 0.25 \<Longrightarrow>
     checkCollisions (x, y, z) targets =
       (\<bar>x + 11.5\<bar> < 8.5 + AGENT_RADIUS \<or> \<bar>x - 11.5\<bar> < 8.5 + AGENT_RADIUS
        \<or> (3 \<le> \<bar>x\<bar> \<and> hitsTarget (x, y, z) targets))
     \<and> (\<bar>x\<bar> \<le> 3 - AGENT_RADIUS \<longrightarrow> \<not> checkCollisions (x, y, z) targets)"
  by (auto simp: checkCollisions_def AGENT_RADIUS_def Let_def abs_if split: if_splits)

theorem checkCollisions_central_wall_witness:
  "checkCollisions (5, 0, 0.3) [] \<and> \<not> checkCollisions (2.6, 0, 0.3) [(2.6, 0, 0.3)]"
  using checkCollisions_central_wall [of "0.3" 5 0 "[]"]
        checkCollisions_central_wall [of "0.3" "2.6" 0 "[(2.6, 0, 0.3)]"]
  by (simp add: AGENT_RADIUS_def)

text \<open>
  The claim as written fails inside the gap: at \<open>x = 2.8\<close>, \<open>z = 0\<close> the position is in the
  gap band (\<open>|x| < 3\<close>) and in no solid segment of the wall, and a collision is reported.
\<close>

theorem checkCollisions_gap_counterexample:
  "\<bar>2.8 :: real\<bar> < 3 \<and> \<bar>0 :: real\<bar> < AGENT_RADIUS + 0.25 \<and> \<not> inSolidSegment 2.8
   \<and> checkCollisions (2.8, 0, 0) []"
  by (simp add: checkCollisions_def AGENT_RADIUS_def Let_def inSolidSegment_def
      wallLength_def gapWidth_def)

subsection \<open>Velocity bounds\<close>

text \<open>
  C2, as the source has it, over whole frames. The integrator has no clamp: it moves each
  velocity toward a command's target value by interpolation, and other blocks of the frame
  write the velocities too. \<open>MAX_SPEED\<close> is 2.5, and 7.5 in pathfinding mode.

  Forward velocity, for a frame time \<open>0 \<le> delta \<le> 1/2\<close> and every command: a velocity
  that is in \<open>[0, MAX_SPEED]\<close> for the mode before the frame is in \<open>[0, MAX_SPEED]\<close> for the
  mode after the frame, in every frame but the one in which \<open>followPath\<close> reports the path
  complete; in that frame too, if the velocity was at most 2.5. In every frame a velocity
  in \<open>[0, 7.5]\<close> stays in \<open>[0, 7.5]\<close>.

  Angular velocity, for a frame time \<open>0 \<le> delta \<le> 1/4\<close> and every command: an angular
  velocity within \<open>\<plusminus>(ROT_SPEED * 0.8 * 1.5)\<close>, the scan rate, stays within it in every
  frame that follows a path, and in every other frame in which the exploration block does
  not run its turn phase and after which the agent is strictly inside the boundary clamp
  (\<open>|x|, |z| < 13.6\<close>). With the bound 1, the turn rate of exploration, the turn phase
  needs no exception; and in every frame an angular velocity within \<open>\<plusminus>1\<close> ends within
  \<open>\<plusminus>2\<close>. The last two parts are the same bounds for the integrator alone.
\<close>

theorem velocity_bounds:
  "(0 \<le> delta f \<and> delta f \<le> 1 / 2
      \<and> 0 \<le> velocity s \<and> velocity s \<le> MAX_SPEED (pathfindingMode s)
      \<and> \<not> completesPath f s
      \<longrightarrow> 0 \<le> velocity (useFrame f s)
        \<and> velocity (useFrame f s) \<le> MAX_SPEED (pathfindingMode (useFrame f s)))
   \<and> (0 \<le> delta f \<and> delta f \<le> 1 / 2 \<and> 0 \<le> velocity s \<and> velocity s \<le> MAX_SPEED False
      \<longrightarrow> 0 \<le> velocity (useFrame f s)
        \<and> velocity (useFrame f s) \<le> MAX_SPEED (pathfindingMode (useFrame f s)))
   \<and> (0 \<le> delta f \<and> delta f \<le> 1 / 2 \<and> 0 \<le> velocity s \<and> velocity s \<le> MAX_SPEED True
      \<longrightarrow> 0 \<le> velocity (useFrame f s) \<and> velocity (useFrame f s) \<le> MAX_SPEED True)
   \<and> (0 \<le> delta f \<and> delta f \<le> 1 / 4 \<and> \<bar>rotationVelocity s\<bar> \<le> ROT_SPEED * 0.8 * 1.5
      \<and> \<not> turnsInExploration f s
      \<and> (followsPath f s \<or> \<bar>pos_x (useFrame f s)\<bar> < 13.6 \<and> \<bar>pos_z (useFrame f s)\<bar> < 13.6)
      \<longrightarrow> \<bar>rotationVelocity (useFrame f s)\<bar> \<le> ROT_SPEED * 0.8 * 1.5)
   \<and> (0 \<le> delta f \<and> delta f \<le> 1 / 4 \<and> \<bar>rotationVelocity s\<bar> \<le> 1
      \<and> (followsPath f s \<or> \<bar>pos_x (useFrame f s)\<bar> < 13.6 \<and> \<bar>pos_z (useFrame f s)\<bar> < 13.6)
      \<longrightarrow> \<bar>rotationVelocity (useFrame f s)\<bar> \<le> 1)
   \<and> (0 \<le> delta f \<and> delta f \<le> 1 / 4 \<and> \<bar>rotationVelocity s\<bar> \<le> 1
      \<longrightarrow> \<bar>rotationVelocity (useFrame f s)\<bar> \<le> 2)
   \<and> (0 \<le> dt \<and> dt \<le> 1 / 2 \<and> 0 \<le> velocity s \<and> velocity s \<le> MAX_SPEED (pathfindingMode s)
      \<longrightarrow> 0 \<le> velocity (updateMovement dt a s)
        \<and> velocity (updateMovement dt a s) \<le> MAX_SPEED (pathfindingMode s))
   \<and> (0 \<le> dt \<and> dt \<le> 1 / 4 \<and> \<bar>rotationVelocity s\<bar> \<le> ROT_SPEED * 0.8 * 1.5
      \<longrightarrow> \<bar>rotationVelocity (updateMovement dt a s)\<bar> \<le> ROT_SPEED * 0.8 * 1.5)"
proof -
  have one: "ROT_SPEED * 0.8 * 1.5 \<le> 1" by (simp add: ROT_SPEED_def)
  have v1: "0 \<le> velocity (useFrame f s)
        \<and> velocity (useFrame f s) \<le> MAX_SPEED (pathfindingMode (useFrame f s))"
    if "0 \<le> delta f \<and> delta f \<le> 1 / 2
      \<and> 0 \<le> velocity s \<and> velocity s \<le> MAX_SPEED (pathfindingMode s) \<and> \<not> completesPath f s"
    using that by (intro useFrame_mode_velocity) simp_all
  have v2: "0 \<le> velocity (useFrame f s)
        \<and> velocity (useFrame f s) \<le> MAX_SPEED (pathfindingMode (useFrame f s))"
    if "0 \<le> delta f \<and> delta f \<le> 1 / 2 \<and> 0 \<le> velocity s \<and> velocity s \<le> MAX_SPEED False"
    using that by (intro useFrame_mode_velocity) (simp_all add: MAX_SPEED_def)
  have v3: "0 \<le> velocity (useFrame f s) \<and> velocity (useFrame f s) \<le> MAX_SPEED True"
    if "0 \<le> delta f \<and> delta f \<le> 1 / 2 \<and> 0 \<le> velocity s \<and> velocity s \<le> MAX_SPEED True"
    using that useFrame_velocity [of f s] by (simp add: MAX_SPEED_def)
  have a1: "\<bar>rotationVelocity (useFrame f s)\<bar> \<le> ROT_SPEED * 0.8 * 1.5"
    if "0 \<le> delta f \<and> delta f \<le> 1 / 4 \<and> \<bar>rotationVelocity s\<bar> \<le> ROT_SPEED * 0.8 * 1.5
      \<and> \<not> turnsInExploration f s
      \<and> (followsPath f s \<or> \<bar>pos_x (useFrame f s)\<bar> < 13.6 \<and> \<bar>pos_z (useFrame f s)\<bar> < 13.6)"
    using that by (intro useFrame_rot(2)) simp_all
  have a2: "\<bar>rotationVelocity (useFrame f s)\<bar> \<le> 1"
    if "0 \<le> delta f \<and> delta f \<le> 1 / 4 \<and> \<bar>rotationVelocity s\<bar> \<le> 1
      \<and> (followsPath f s \<or> \<bar>pos_x (useFrame f s)\<bar> < 13.6 \<and> \<bar>pos_z (useFrame f s)\<bar> < 13.6)"
    using that one by (intro useFrame_rot(2)) simp_all
  have a3: "\<bar>rotationVelocity (useFrame f s)\<bar> \<le> 2"
    if "0 \<le> delta f \<and> delta f \<le> 1 / 4 \<and> \<bar>rotationVelocity s\<bar> \<le> 1"
    using that one useFrame_rot(1) [of f s 1] by simp
  have u1: "0 \<le> velocity (updateMovement dt a s)
        \<and> velocity (updateMovement dt a s) \<le> MAX_SPEED (pathfindingMode s)"
    if "0 \<le> dt \<and> dt \<le> 1 / 2 \<and> 0 \<le> velocity s \<and> velocity s \<le> MAX_SPEED (pathfindingMode s)"
    using that by (intro updateMovement_mode_velocity) simp_all
  have u2: "\<bar>rotationVelocity (updateMovement dt a s)\<bar> \<le> ROT_SPEED * 0.8 * 1.5"
    if "0 \<le> dt \<and> dt \<le> 1 / 4 \<and> \<bar>rotationVelocity s\<bar> \<le> ROT_SPEED * 0.8 * 1.5"
    using that by (intro updateMovement_rot) simp_all
  from v1 v2 v3 a1 a2 a3 u1 u2 show ?thesis by blast
qed

theorem velocity_bounds_witness:
  "0 \<le> velocity (useFrame (frameAt 10 FORWARD None) (restState\<lparr>velocity := 1\<rparr>))
   \<and> velocity (useFrame (frameAt 10 FORWARD None) (restState\<lparr>velocity := 1\<rparr>)) \<le> 2.5
   \<and> \<bar>rotationVelocity (useFrame (frameAt 10 FORWARD None) (restState\<lparr>velocity := 1\<rparr>))\<bar>
       \<le> 0.81
   \<and> velocity (updateMovement (1 / 4) FORWARD (restState\<lparr>velocity := 1\<rparr>)) \<le> 2.5
   \<and> \<bar>rotationVelocity (updateMovement (1 / 4) FORWARD (restState\<lparr>velocity := 1\<rparr>))\<bar> \<le> 0.81"
proof -
  define s where "s = restState\<lparr>velocity := 1\<rparr>"
  define f where "f = frameAt 10 FORWARD None"
  have aa: "afterActivation f s = trackRotation s"
    by (simp add: afterActivation_def activatePathfinding_def activateExploration_def
        trackRotation_def normalizedDelta_def s_def f_def restState_def frameAt_def)
  have off: "\<not> pathfindingMode (afterActivation f s)"
    unfolding aa by (simp add: s_def restState_def)
  have m: "\<not> pathfindingMode s" "\<not> pathfindingMode (useFrame f s)"
    using off by (simp_all add: useFrame_normal restOfFrame_fields) (simp add: s_def restState_def)
  have nc: "\<not> completesPath f s" using off by (simp add: completesPath_def)
  have nt: "\<not> turnsInExploration f s"
    unfolding turnsInExploration_def aa by (simp add: s_def restState_def)
  have bm: "velocity (beforeMove f (normalizedDelta s) (trackRotation s)) = 21 / 20"
    "pos_x (beforeMove f (normalizedDelta s) (trackRotation s)) = 0"
    "pos_z (beforeMove f (normalizedDelta s) (trackRotation s)) = 0"
    by (simp_all add: beforeMove_def explorationStep_def updateCooldowns_def collisionStep_def
        accumulateScan_def updateMovement_def trackRotation_def s_def f_def restState_def
        frameAt_def flipCommand_def checkCollisions_def AGENT_RADIUS_def targetVel_def
        targetRot_def MAX_SPEED_def lerp_def Let_def)
  have d: "delta f = 1 / 60" by (simp add: f_def frameAt_def)
  have ins: "\<bar>pos_x (useFrame f s)\<bar> < 13.6" "\<bar>pos_z (useFrame f s)\<bar> < 13.6"
    unfolding useFrame_normal [OF off] aa
    using restOfFrame_pos [of f "normalizedDelta s" "trackRotation s"]
    by (simp_all add: bm d)
  have v: "velocity s = 1" "rotationVelocity s = 0" by (simp_all add: s_def restState_def)
  have "0 \<le> velocity (useFrame f s) \<and> velocity (useFrame f s) \<le> 2.5
     \<and> \<bar>rotationVelocity (useFrame f s)\<bar> \<le> 0.81
     \<and> velocity (updateMovement (1 / 4) FORWARD s) \<le> 2.5
     \<and> \<bar>rotationVelocity (updateMovement (1 / 4) FORWARD s)\<bar> \<le> 0.81"
    using velocity_bounds [where f = f and s = s and dt = "1 / 4" and a = FORWARD]
      m nc nt ins
    by (simp add: d v MAX_SPEED_def ROT_SPEED_def)
  then show ?thesis by (simp only: s_def f_def)
qed

text \<open>
  The claim as written fails over a frame, and each exception above is needed. A turn frame
  of exploration takes the angular velocity from 0 to \<open>14/15\<close>, above the scan rate
  \<open>0.81\<close>. A frame at the east boundary, under LEFT, takes it from \<open>0.675\<close> to \<open>1.175\<close>
  through the clamp. The frame that completes a path leaves a forward velocity of
  \<open>203/30\<close> with pathfinding mode off, where the maximum speed is 2.5. And the frame time
  matters: a frame of one second under STOP takes the forward velocity from 1 to \<open>-1\<close>, and
  a frame of half a second under RIGHT takes the angular velocity from \<open>0.675\<close> to
  \<open>-2.025\<close>.
\<close>

theorem velocity_bounds_counterexample:
  "\<bar>rotationVelocity (restState\<lparr>explorationMode := True, explorationPhase := 1\<rparr>)\<bar>
      \<le> ROT_SPEED * 0.8 * 1.5
   \<and> \<bar>rotationVelocity (useFrame (frameAt 1 IDLE None)
        (restState\<lparr>explorationMode := True, explorationPhase := 1\<rparr>))\<bar> > ROT_SPEED * 0.8 * 1.5
   \<and> \<bar>rotationVelocity (restState\<lparr>pos_x := 13.6, pos_z := 5, rotation_y := - 1,
         lastRotationAngle := - 1, velocity := 1, rotationVelocity := 0.675,
         collisionCooldown := 0.5\<rparr>)\<bar> \<le> ROT_SPEED * 0.8 * 1.5
   \<and> \<bar>rotationVelocity (useFrame (frameAt 1 LEFT None)
        (restState\<lparr>pos_x := 13.6, pos_z := 5, rotation_y := - 1, lastRotationAngle := - 1,
           velocity := 1, rotationVelocity := 0.675, collisionCooldown := 0.5\<rparr>))\<bar> > 1
   \<and> velocity (restState\<lparr>pos_z := - 9.5, velocity := 7, pathfindingMode := True,
         currentPath := findPathThroughGap 0 0 south, currentPathIndex := 6\<rparr>) \<le> MAX_SPEED True
   \<and> velocity (useFrame (frameAt 10 IDLE (Some (0, 0, - 5)))
        (restState\<lparr>pos_z := - 9.5, velocity := 7, pathfindingMode := True,
           currentPath := findPathThroughGap 0 0 south, currentPathIndex := 6\<rparr>))
      > MAX_SPEED (pathfindingMode (useFrame (frameAt 10 IDLE (Some (0, 0, - 5)))
        (restState\<lparr>pos_z := - 9.5, velocity := 7, pathfindingMode := True,
           currentPath := findPathThroughGap 0 0 south, currentPathIndex := 6\<rparr>)))
   \<and> velocity (useFrame \<lparr>delta = 1, elapsedTime = 1, action = STOP, targetPosition = None\<rparr>
        (restState\<lparr>velocity := 1\<rparr>)) < 0
   \<and> \<bar>rotationVelocity (restState\<lparr>rotationVelocity := 0.675\<rparr>)\<bar> \<le> ROT_SPEED * 0.8 * 1.5
   \<and> \<bar>rotationVelocity
        (useFrame \<lparr>delta = 1 / 2, elapsedTime = 1, action = RIGHT, targetPosition = None\<rparr>
           (restState\<lparr>rotationVelocity := 0.675\<rparr>))\<bar> > 2"
  using turn_frame_example clamp_frame_example completion_frame_example
    long_stop_frame_example long_turn_frame_example
  by (simp add: ROT_SPEED_def MAX_SPEED_def restState_def)

subsection \<open>Braking\<close>

text \<open>
  C7, as the source has it, over whole frames. For a frame time \<open>0 \<le> delta \<le> 1/2\<close> no
  frame, under any command, makes a non-negative forward velocity negative. The command
  STOP drives the agent only in a frame in which it is neither following a path nor
  exploring and in which no collision rebound fires: such a frame multiplies the forward
  velocity by \<open>1 - 2 * delta\<close>, and the boundary clamp, where it acts, halves it further,
  so the velocity after it is at most \<open>v * (1 - 2 * delta)\<close>, and it is
  \<open>v * (1 - 2 * delta)\<close> when the agent ends strictly inside the boundary. After a run of
  \<open>n\<close> such frames of one length the velocity is between 0 and \<open>v * (1 - 2 * delta) ^ n\<close>,
  never above where it started, and along an unending run of them (\<open>delta > 0\<close>) it tends
  to 0. Whether it reaches 0 is left open.
\<close>

theorem stop_decay:
  "(0 \<le> delta f \<and> delta f \<le> 1 / 2 \<and> 0 \<le> velocity s \<longrightarrow> 0 \<le> velocity (useFrame f s))
   \<and> (reactiveStop f s \<and> 0 \<le> delta f \<and> delta f \<le> 1 / 2 \<and> 0 \<le> velocity s \<longrightarrow>
        velocity (useFrame f s) \<le> velocity s * (1 - delta f * 2)
        \<and> (\<bar>pos_x (useFrame f s)\<bar> < 13.6 \<and> \<bar>pos_z (useFrame f s)\<bar> < 13.6 \<longrightarrow>
             velocity (useFrame f s) = velocity s * (1 - delta f * 2)))
   \<and> (reactiveStopRun fs s \<and> (\<forall>g \<in> set fs. delta g = dt) \<and> 0 \<le> dt \<and> dt \<le> 1 / 2
        \<and> 0 \<le> velocity s \<longrightarrow>
        0 \<le> velocity (runFrames fs s)
        \<and> velocity (runFrames fs s) \<le> velocity s * (1 - dt * 2) ^ length fs
        \<and> velocity (runFrames fs s) \<le> velocity s)
   \<and> ((\<forall>n. reactiveStopRun (map F [0..<n]) s) \<and> (\<forall>n. delta (F n) = dt) \<and> 0 < dt \<and> dt \<le> 1 / 2
        \<and> 0 \<le> velocity s \<longrightarrow>
        (\<lambda>n. velocity (runFrames (map F [0..<n]) s)) \<longlonglongrightarrow> 0)"
proof (intro conjI impI)
  assume "0 \<le> delta f \<and> delta f \<le> 1 / 2 \<and> 0 \<le> velocity s"
  then show "0 \<le> velocity (useFrame f s)" by (intro useFrame_nonneg) simp_all
next
  assume h: "reactiveStop f s \<and> 0 \<le> delta f \<and> delta f \<le> 1 / 2 \<and> 0 \<le> velocity s"
  then have a: "reactiveStop f s" "0 \<le> delta f" "delta f \<le> 1 / 2" "0 \<le> velocity s"
    by simp_all
  show "velocity (useFrame f s) \<le> velocity s * (1 - delta f * 2)"
    by (rule reactiveStop_velocity(2) [OF a])
  assume "\<bar>pos_x (useFrame f s)\<bar> < 13.6 \<and> \<bar>pos_z (useFrame f s)\<bar> < 13.6"
  then show "velocity (useFrame f s) = velocity s * (1 - delta f * 2)"
    by (intro reactiveStop_velocity(3) [OF a]) simp_all
next
  assume h: "reactiveStopRun fs s \<and> (\<forall>g \<in> set fs. delta g = dt) \<and> 0 \<le> dt \<and> dt \<le> 1 / 2
        \<and> 0 \<le> velocity s"
  then have a: "0 \<le> dt" "dt \<le> 1 / 2" "reactiveStopRun fs s" "\<forall>g \<in> set fs. delta g = dt"
    "0 \<le> velocity s" by simp_all
  note b = reactiveStopRun_velocity [OF a]
  have "0 \<le> velocity s * ((1 - dt * 2) / 4) ^ length fs" using a(1,2,5) by simp
  with b show "0 \<le> velocity (runFrames fs s)" by simp
  show u: "velocity (runFrames fs s) \<le> velocity s * (1 - dt * 2) ^ length fs"
    using b by simp
  have "(1 - dt * 2) ^ length fs \<le> 1" using a(1,2) by (intro power_le_one) simp_all
  then have "velocity s * (1 - dt * 2) ^ length fs \<le> velocity s"
    using a(5) by (simp add: mult_left_le)
  with u show "velocity (runFrames fs s) \<le> velocity s" by simp
next
  assume h: "(\<forall>n. reactiveStopRun (map F [0..<n]) s) \<and> (\<forall>n. delta (F n) = dt) \<and> 0 < dt
        \<and> dt \<le> 1 / 2 \<and> 0 \<le> velocity s"
  then have a: "0 \<le> dt" "dt \<le> 1 / 2" and p: "0 < dt" and v: "0 \<le> velocity s" by simp_all
  let ?q = "1 - dt * 2"
  have q: "0 \<le> ?q" "?q < 1" using a p by simp_all
  have b: "velocity s * (?q / 4) ^ n \<le> velocity (runFrames (map F [0..<n]) s)
      \<and> velocity (runFrames (map F [0..<n]) s) \<le> velocity s * ?q ^ n" for n
    using reactiveStopRun_velocity [OF a, of "map F [0..<n]" s] h by simp
  have lo: "0 \<le> velocity (runFrames (map F [0..<n]) s)" for n
  proof -
    have "0 \<le> velocity s * (?q / 4) ^ n" using v q by simp
    with b [of n] show ?thesis by simp
  qed
  have "(\<lambda>n. ?q ^ n) \<longlonglongrightarrow> 0" using q by (intro LIMSEQ_realpow_zero) simp_all
  then have up: "(\<lambda>n. velocity s * ?q ^ n) \<longlonglongrightarrow> 0" by (rule tendsto_mult_right_zero)
  show "(\<lambda>n. velocity (runFrames (map F [0..<n]) s)) \<longlonglongrightarrow> 0"
    by (rule tendsto_sandwich [OF _ _ tendsto_const up]) (simp_all add: lo b)
qed

theorem stop_decay_witness:
  "0 \<le> velocity (useFrame (frameAt 1 FORWARD None) (restState\<lparr>velocity := 1\<rparr>))
   \<and> velocity (useFrame (frameAt 1 STOP None) (restState\<lparr>velocity := 1\<rparr>)) = 29 / 30
   \<and> velocity (runFrames (framesAt 2 STOP None) (restState\<lparr>velocity := 1\<rparr>)) \<le> (29 / 30)\<^sup>2
   \<and> (\<lambda>n. velocity (runFrames (framesAt n STOP None) (restState\<lparr>velocity := 1\<rparr>)))
        \<longlonglongrightarrow> 0"
proof -
  define s where "s = restState\<lparr>velocity := 1\<rparr>"
  define f where "f = frameAt 1 STOP None"
  define g where "g = frameAt 1 FORWARD None"
  define F where "F = (\<lambda>k. frameAt (real (Suc k) / 60) STOP None)"
  have m: "map F [0..<n] = framesAt n STOP None" for n by (simp add: F_def framesAt_def)
  have v: "velocity s = 1" by (simp add: s_def restState_def)
  have r0: "restState\<lparr>pos_z := 0, velocity := 1\<rparr> = s" by (simp add: s_def restState_def)
  have u: "useFrame f s = restState\<lparr>pos_z := 0 - 29 * 1 / 1800, velocity := 29 * 1 / 30\<rparr>"
    and r: "reactiveStop f s"
    using stop_frame_at_origin [of 0 1 1 None] unfolding r0 f_def by simp_all
  have x: "\<bar>pos_x (useFrame f s)\<bar> < 13.6 \<and> \<bar>pos_z (useFrame f s)\<bar> < 13.6"
    unfolding u by (simp add: restState_def)
  have rr: "reactiveStopRun (framesAt n STOP None) s" for n
    using stop_run_at_origin [of n None] by (simp only: s_def)
  have d: "\<forall>k \<in> set (framesAt n STOP None). delta k = 1 / 60" for n
    by (simp add: framesAt_def)
  have l: "length (framesAt 2 STOP None) = 2" by (simp add: framesAt_def)
  have dF: "delta (F n) = 1 / 60" for n by (simp add: F_def)
  have "0 \<le> velocity (useFrame g s)
     \<and> velocity (useFrame f s) = 29 / 30
     \<and> velocity (runFrames (framesAt 2 STOP None) s) \<le> (29 / 30)\<^sup>2
     \<and> (\<lambda>n. velocity (runFrames (framesAt n STOP None) s)) \<longlonglongrightarrow> 0"
    using stop_decay [of g s "framesAt 2 STOP None" "1 / 60" F]
      stop_decay [of f s "framesAt 2 STOP None" "1 / 60" F] r x rr d l dF
    by (simp add: m v g_def f_def)
  then show ?thesis by (simp only: s_def f_def g_def)
qed

text \<open>
  The claim as written fails. From velocity 1 at the mount position, at sixty frames a
  second, the velocity after \<open>n\<close> frames under STOP is \<open>(29/30) ^ n\<close>: no number of frames
  brings it to 0. And STOP does not brake every frame: with the agent inside a wall segment
  the collision rebound takes the velocity from 0 to \<open>29/20\<close>, the first phase of exploration
  does the same, and a frame that follows a path takes it from 0 to \<open>1/4\<close>, all under STOP.
  Nor is the velocity never negative: a frame of one second under STOP takes it from 1 to
  \<open>-1\<close>.
\<close>

theorem stop_never_zero_counterexample:
  "(\<forall>n. velocity (runFrames (framesAt n STOP None) (restState\<lparr>velocity := 1\<rparr>)) = (29 / 30) ^ n)
   \<and> (\<forall>n. velocity (runFrames (framesAt n STOP None) (restState\<lparr>velocity := 1\<rparr>)) \<noteq> 0)
   \<and> velocity (restState\<lparr>pos_x := 5\<rparr>) = 0
   \<and> velocity (useFrame (frameAt 1 STOP None) (restState\<lparr>pos_x := 5\<rparr>)) = 29 / 20
   \<and> velocity (useFrame (frameAt 1 STOP None) (restState\<lparr>explorationMode := True\<rparr>)) = 29 / 20
   \<and> velocity (useFrame (frameAt 1 STOP (Some (0, 0, - 5)))
        (restState\<lparr>pathfindingMode := True, currentPath := findPathThroughGap 0 0 south,
           currentPathIndex := 1\<rparr>)) = 1 / 4
   \<and> velocity (useFrame \<lparr>delta = 1, elapsedTime = 1, action = STOP, targetPosition = None\<rparr>
        (restState\<lparr>velocity := 1\<rparr>)) < 0"
proof -
  have "velocity (runFrames (framesAt n STOP None) (restState\<lparr>velocity := 1\<rparr>)) = (29 / 30) ^ n"
    for n
    using stop_run_at_origin [of n None] by simp
  then show ?thesis
    using stop_rebound_example stop_exploring_example stop_following_example
      long_stop_frame_example
    by (simp add: restState_def)
qed

subsection \<open>Activation of pathfinding\<close>

text \<open>
  C3. The activation block turns pathfinding mode on exactly when the scan accumulator is
  above \<open>2\<pi>\<close>, a target is assigned and the mode is not on already; over a whole frame the
  mode is on afterwards only if it was on before or that condition held (so never from a
  frame with no target), and when the condition holds the mode is on after the frame
  unless a collision aborted the path within it. The path then stored leads to the half
  opposite the agent's own: from the north half (\<open>z \<ge> 0\<close>) it ends at depth \<open>-10\<close>, from the
  south half at depth \<open>10\<close>, so its last waypoint is never on the agent's half. The
  target's position does not enter it: any frame with a target assigned gives the same
  path.
\<close>

theorem pathfinding_activation:
  "(pathfindingMode (activatePathfinding f (trackRotation s))
      \<longleftrightarrow> pathfindingMode s \<or> (scanRotation s > 2 * pi \<and> targetPosition f \<noteq> None))
   \<and> (pathfindingMode (useFrame f s)
      \<longrightarrow> pathfindingMode s \<or> (scanRotation s > 2 * pi \<and> targetPosition f \<noteq> None))
   \<and> (scanRotation s > 2 * pi \<and> \<not> pathfindingMode s \<and> targetPosition f \<noteq> None \<longrightarrow>
        (pathfindingMode (useFrame f s) \<or> collisionDetected (useFrame f s))
        \<and> currentPath (useFrame f s) =
            findPathThroughGap (pos_x s) (pos_z s) (oppositeSide (determineAgentSide (pos_z s)))
        \<and> determineAgentSide (snd (last (currentPath (useFrame f s))))
            = oppositeSide (determineAgentSide (pos_z s))
        \<and> determineAgentSide (snd (last (currentPath (useFrame f s))))
            \<noteq> determineAgentSide (pos_z s)
        \<and> currentPath (useFrame f s) =
            (if pos_z s \<ge> 0
             then [(pos_x s, pos_z s), (0, 5), (0, 2), (0, 0), (0, - 2), (0, - 8),
                   (min (max (pos_x s) (- 12)) 12, - 10)]
             else [(pos_x s, pos_z s), (0, - 5), (0, - 2), (0, 0), (0, 2), (0, 8),
                   (min (max (pos_x s) (- 12)) 12, 10)])
        \<and> (targetPosition f' \<noteq> None
             \<longrightarrow> currentPath (useFrame f' s) = currentPath (useFrame f s)))"
proof (intro conjI impI)
  show "pathfindingMode (activatePathfinding f (trackRotation s))
      \<longleftrightarrow> pathfindingMode s \<or> (scanRotation s > 2 * pi \<and> targetPosition f \<noteq> None)"
    by (auto simp: activatePathfinding_def Let_def simp del: not_None_eq)
next
  assume on: "pathfindingMode (useFrame f s)"
  let ?s3 = "activateExploration f (activatePathfinding f (trackRotation s))"
  have "pathfindingMode ?s3"
  proof (rule ccontr)
    assume off: "\<not> pathfindingMode ?s3"
    then have "useFrame f s = restOfFrame f (normalizedDelta s) ?s3"
      by (simp only: useFrame_unfold Let_def if_False)
    with on off show False by (simp only: restOfFrame_fields)
  qed
  then have "pathfindingMode (activatePathfinding f (trackRotation s))" by simp
  then show "pathfindingMode s \<or> (scanRotation s > 2 * pi \<and> targetPosition f \<noteq> None)"
    by (auto simp: activatePathfinding_def Let_def simp del: not_None_eq split: if_splits)
next
  assume c: "scanRotation s > 2 * pi \<and> \<not> pathfindingMode s \<and> targetPosition f \<noteq> None"
  then have c1: "scanRotation s > 2 * pi" and c2: "\<not> pathfindingMode s"
    and c3: "targetPosition f \<noteq> None" by blast+
  note af = activation_frame [OF c1 c2 c3]
  show "pathfindingMode (useFrame f s) \<or> collisionDetected (useFrame f s)"
    unfolding af(1) using af(5) by (rule pathfindingMove_mode)
  show p: "currentPath (useFrame f s) =
      findPathThroughGap (pos_x s) (pos_z s) (oppositeSide (determineAgentSide (pos_z s)))"
    by (rule activation_path [OF c1 c2 c3])
  show q: "determineAgentSide (snd (last (currentPath (useFrame f s))))
      = oppositeSide (determineAgentSide (pos_z s))"
    unfolding p by (rule path_last_side)
  show "determineAgentSide (snd (last (currentPath (useFrame f s))))
      \<noteq> determineAgentSide (pos_z s)"
    unfolding q using oppositeSide_differs [of "pos_z s"] by simp
  show "currentPath (useFrame f s) =
      (if pos_z s \<ge> 0
       then [(pos_x s, pos_z s), (0, 5), (0, 2), (0, 0), (0, - 2), (0, - 8),
             (min (max (pos_x s) (- 12)) 12, - 10)]
       else [(pos_x s, pos_z s), (0, - 5), (0, - 2), (0, 0), (0, 2), (0, 8),
             (min (max (pos_x s) (- 12)) 12, 10)])"
    unfolding p
    by (simp add: findPathThroughGap_def determineAgentSide_def oppositeSide_def Let_def)
  {
    assume t: "targetPosition f' \<noteq> None"
    show "currentPath (useFrame f' s) = currentPath (useFrame f s)"
      unfolding p by (rule activation_path [OF c1 c2 t])
  }
qed

theorem pathfinding_activation_witness:
  "currentPath (useFrame (frameAt 10 SCAN (Some (5, 0, 5))) (restState\<lparr>scanRotation := 8\<rparr>))
     = [(0, 0), (0, 5), (0, 2), (0, 0), (0, - 2), (0, - 8), (0, - 10)]
   \<and> currentPath (useFrame (frameAt 10 SCAN (Some (5, 0, 5)))
        (restState\<lparr>pos_x := 3, pos_z := - 4, scanRotation := 8\<rparr>))
     = [(3, - 4), (0, - 5), (0, - 2), (0, 0), (0, 2), (0, 8), (3, 10)]
   \<and> \<not> pathfindingMode (useFrame (frameAt 10 SCAN None) (restState\<lparr>scanRotation := 8\<rparr>))"
proof -
  define f where "f = frameAt 10 SCAN (Some (5, 0, 5))"
  define g where "g = frameAt 10 SCAN None"
  define n where "n = restState\<lparr>scanRotation := 8\<rparr>"
  define s where "s = restState\<lparr>pos_x := 3, pos_z := - 4, scanRotation := 8\<rparr>"
  have c: "scanRotation n > 2 * pi \<and> \<not> pathfindingMode n \<and> targetPosition f \<noteq> None"
    "scanRotation s > 2 * pi \<and> \<not> pathfindingMode s \<and> targetPosition f \<noteq> None"
    by (simp_all add: n_def s_def f_def restState_def frameAt_def two_pi_less_8)
  have v: "pos_x n = 0" "pos_z n = 0" "pos_x s = 3" "pos_z s = - 4"
    by (simp_all add: n_def s_def restState_def)
  have g: "\<not> pathfindingMode n" "targetPosition g = None"
    by (simp_all add: n_def g_def restState_def frameAt_def)
  have "currentPath (useFrame f n) =
      (if pos_z n \<ge> 0
       then [(pos_x n, pos_z n), (0, 5), (0, 2), (0, 0), (0, - 2), (0, - 8),
             (min (max (pos_x n) (- 12)) 12, - 10)]
       else [(pos_x n, pos_z n), (0, - 5), (0, - 2), (0, 0), (0, 2), (0, 8),
             (min (max (pos_x n) (- 12)) 12, 10)])"
    using pathfinding_activation [of f n] c(1) by blast
  then have "currentPath (useFrame f n) =
      [(0, 0), (0, 5), (0, 2), (0, 0), (0, - 2), (0, - 8), (0, - 10)]"
    by (simp add: v)
  moreover have "currentPath (useFrame f s) =
      (if pos_z s \<ge> 0
       then [(pos_x s, pos_z s), (0, 5), (0, 2), (0, 0), (0, - 2), (0, - 8),
             (min (max (pos_x s) (- 12)) 12, - 10)]
       else [(pos_x s, pos_z s), (0, - 5), (0, - 2), (0, 0), (0, 2), (0, 8),
             (min (max (pos_x s) (- 12)) 12, 10)])"
    using pathfinding_activation [of f s] c(2) by blast
  then have "currentPath (useFrame f s) =
      [(3, - 4), (0, - 5), (0, - 2), (0, 0), (0, 2), (0, 8), (3, 10)]"
    by (simp add: v)
  moreover have "\<not> pathfindingMode (useFrame g n)"
    using pathfinding_activation [of g n] g by blast
  ultimately show ?thesis by (simp only: f_def g_def n_def s_def simp_thms)
qed

subsection \<open>The path from the north half to the south half\<close>

text \<open>
  C4, as the source has it. For an agent on the north half (\<open>z \<ge> 0\<close>) with a target
  assigned on the south half, in the frame where the scan accumulator is above \<open>2\<pi>\<close> the
  stored path is the agent's own position followed by \<open>(0,5), (0,2), (0,0), (0,-2), (0,-8)\<close>
  and the spread point. It contains the gap centre \<open>(0,0)\<close> exactly once unless the agent
  itself stands at \<open>(0,0)\<close>, in which case it contains it twice; the last waypoint has depth
  \<open>-10\<close> and a lateral coordinate within \<open>\<plusminus>12\<close>.
\<close>

theorem north_to_south_path:
  assumes "0 \<le> pos_z s" "scanRotation s > 2 * pi" "\<not> pathfindingMode s"
    and "targetPosition f = Some (tx, ty, tz)" "determineTargetSide tz = south"
  shows "currentPath (useFrame f s) =
        [(pos_x s, pos_z s), (0, 5), (0, 2), (0, 0), (0, - 2), (0, - 8),
         (min (max (pos_x s) (- 12)) 12, - 10)]
     \<and> count_list (currentPath (useFrame f s)) (0, 0)
         = (if pos_x s = 0 \<and> pos_z s = 0 then 2 else 1)
     \<and> snd (last (currentPath (useFrame f s))) = - 10
     \<and> \<bar>fst (last (currentPath (useFrame f s)))\<bar> \<le> 12"
proof -
  have t: "targetPosition f \<noteq> None" using assms(4) by simp
  have sd: "oppositeSide (determineAgentSide (pos_z s)) = south"
    using assms(1) by (simp add: oppositeSide_def determineAgentSide_def)
  have p: "currentPath (useFrame f s) =
        [(pos_x s, pos_z s), (0, 5), (0, 2), (0, 0), (0, - 2), (0, - 8),
         (min (max (pos_x s) (- 12)) 12, - 10)]"
    using assms(1) unfolding activation_path [OF assms(2) assms(3) t] sd
    by (simp add: findPathThroughGap_def determineAgentSide_def Let_def)
  show ?thesis unfolding p by (auto simp: abs_le_iff)
qed

theorem north_to_south_path_witness:
  "currentPath (useFrame (frameAt 10 SCAN (Some (3, 0, - 6)))
       (restState\<lparr>pos_x := 20, pos_z := 4, scanRotation := 8\<rparr>))
     = [(20, 4), (0, 5), (0, 2), (0, 0), (0, - 2), (0, - 8), (12, - 10)]
   \<and> count_list (currentPath (useFrame (frameAt 10 SCAN (Some (3, 0, - 6)))
       (restState\<lparr>pos_x := 20, pos_z := 4, scanRotation := 8\<rparr>))) (0, 0) = 1"
proof -
  let ?s = "restState\<lparr>pos_x := 20, pos_z := 4, scanRotation := 8\<rparr>"
  let ?f = "frameAt 10 SCAN (Some (3, 0, - 6))"
  have h: "0 \<le> pos_z ?s" "scanRotation ?s > 2 * pi" "\<not> pathfindingMode ?s"
    "targetPosition ?f = Some (3, 0, - 6)" "determineTargetSide (- 6) = south"
    by (simp_all add: restState_def frameAt_def determineTargetSide_def two_pi_less_8)
  have v: "pos_x ?s = 20" "pos_z ?s = 4" by (simp_all add: restState_def)
  from north_to_south_path [OF h] show ?thesis unfolding v by simp
qed

text \<open>
  The claim as written fails for the agent as mounted, at the origin: the path starts at
  \<open>(0,0)\<close> and passes through \<open>(0,0)\<close> again.
\<close>

theorem gap_centre_twice_counterexample:
  "0 \<le> pos_z (restState\<lparr>scanRotation := 8\<rparr>)
   \<and> determineTargetSide (- 5) = south
   \<and> count_list
       (currentPath (useFrame (frameAt 10 SCAN (Some (0, 0, - 5))) (restState\<lparr>scanRotation := 8\<rparr>)))
       (0, 0) = 2"
proof -
  have "currentPath (useFrame (frameAt 10 SCAN (Some (0, 0, - 5))) (restState\<lparr>scanRotation := 8\<rparr>))
      = findPathThroughGap 0 0 south"
    using activation_path [of "restState\<lparr>scanRotation := 8\<rparr>" "frameAt 10 SCAN (Some (0, 0, - 5))"]
      two_pi_less_8
    by (simp add: restState_def frameAt_def determineAgentSide_def oppositeSide_def)
  then show ?thesis
    by (simp add: findPathThroughGap_def determineAgentSide_def determineTargetSide_def Let_def
        restState_def)
qed

subsection \<open>The scan accumulator\<close>

text \<open>
  C5, as the source has it. While the supplied command is SCAN the scan accumulator does
  not decrease over a frame, except in the frame that activates pathfinding, which sets it
  to 0. No frame that follows a path touches it, so (starting from 0 at activation) it
  is 0 throughout pathfinding and still 0 after a frame in which a collision aborts the
  path; in the frame where the path completes it restarts from 0, ending that frame at
  the frame's own heading change when the command is SCAN and at 0 otherwise.
\<close>

theorem scanRotation_frame:
  "(action f = SCAN
      \<and> \<not> (scanRotation s > 2 * pi \<and> \<not> pathfindingMode s \<and> targetPosition f \<noteq> None)
      \<longrightarrow> scanRotation s \<le> scanRotation (useFrame f s))
   \<and> (scanRotation s > 2 * pi \<and> \<not> pathfindingMode s \<and> targetPosition f \<noteq> None
      \<longrightarrow> scanRotation (useFrame f s) = 0)
   \<and> (pathfindingMode s \<and> scanRotation s = 0 \<longrightarrow>
        scanRotation (useFrame f s) =
          (if fst (followPath (afterActivation f s)) = STOP \<and> action f = SCAN
           then \<bar>normalizedDelta s\<bar> else 0))
   \<and> ((pathfindingMode s \<longrightarrow> scanRotation s = 0)
      \<longrightarrow> pathfindingMode (useFrame f s) \<longrightarrow> scanRotation (useFrame f s) = 0)"
proof (intro conjI impI)
  assume "action f = SCAN
      \<and> \<not> (scanRotation s > 2 * pi \<and> \<not> pathfindingMode s \<and> targetPosition f \<noteq> None)"
  then have a: "action f = SCAN" and sc: "scanRotation (afterActivation f s) = scanRotation s"
    by (simp_all only: afterActivation_scan if_False)
  show "scanRotation s \<le> scanRotation (useFrame f s)"
    unfolding useFrame_scanRotation sc using a by simp
next
  assume c: "scanRotation s > 2 * pi \<and> \<not> pathfindingMode s \<and> targetPosition f \<noteq> None"
  then have c1: "scanRotation s > 2 * pi" and c2: "\<not> pathfindingMode s"
    and c3: "targetPosition f \<noteq> None" by blast+
  show "scanRotation (useFrame f s) = 0"
    unfolding activation_frame(1) [OF c1 c2 c3]
    by (simp only: pathfindingMove_fields followPath_fields activation_frame(3) [OF c1 c2 c3])
next
  assume "pathfindingMode s \<and> scanRotation s = 0"
  then have m: "pathfindingMode (afterActivation f s)" and z: "scanRotation (afterActivation f s) = 0"
    by (simp_all add: afterActivation_mode afterActivation_scan del: not_None_eq)
  show "scanRotation (useFrame f s) =
          (if fst (followPath (afterActivation f s)) = STOP \<and> action f = SCAN
           then \<bar>normalizedDelta s\<bar> else 0)"
    unfolding useFrame_scanRotation z using m by simp
next
  assume inv: "pathfindingMode s \<longrightarrow> scanRotation s = 0"
  assume on: "pathfindingMode (useFrame f s)"
  note b = useFrame_mode_on' [OF on]
  have "scanRotation (afterActivation f s) = 0"
    using inv b by (auto simp: afterActivation_scan afterActivation_mode simp del: not_None_eq)
  then show "scanRotation (useFrame f s) = 0"
    unfolding useFrame_scanRotation using b by simp
qed

theorem scanRotation_frame_witness:
  "scanRotation (useFrame (frameAt 10 SCAN (Some (0, 0, - 5))) (restState\<lparr>scanRotation := 8\<rparr>)) = 0
   \<and> scanRotation (restState\<lparr>scanRotation := 3\<rparr>)
        \<le> scanRotation (useFrame (frameAt 10 SCAN None) (restState\<lparr>scanRotation := 3\<rparr>))"
  using scanRotation_frame [of "frameAt 10 SCAN (Some (0, 0, - 5))" "restState\<lparr>scanRotation := 8\<rparr>"]
    scanRotation_frame [of "frameAt 10 SCAN None" "restState\<lparr>scanRotation := 3\<rparr>"]
    two_pi_less_8
  by (simp add: restState_def frameAt_def)

text \<open>
  The claim as written fails in the activating frame: the command is SCAN and the
  accumulator falls from 8 to 0.
\<close>

theorem scanRotation_reset_counterexample:
  "action (frameAt 10 SCAN (Some (0, 0, - 5))) = SCAN
   \<and> scanRotation (useFrame (frameAt 10 SCAN (Some (0, 0, - 5))) (restState\<lparr>scanRotation := 8\<rparr>))
        < scanRotation (restState\<lparr>scanRotation := 8\<rparr>)"
proof -
  let ?s = "restState\<lparr>scanRotation := 8\<rparr>"
  let ?f = "frameAt 10 SCAN (Some (0, 0, - 5))"
  have h: "scanRotation ?s > 2 * pi" "\<not> pathfindingMode ?s" "targetPosition ?f \<noteq> None"
    by (simp_all add: restState_def frameAt_def two_pi_less_8)
  have "scanRotation (useFrame ?f ?s) = 0"
    unfolding activation_frame(1) [OF h]
    by (simp only: pathfindingMove_fields followPath_fields activation_frame(3) [OF h])
  then show ?thesis by (simp add: restState_def frameAt_def)
qed

subsection \<open>Exploration\<close>




subsection \<open>The mission sequencer\<close>



subsection \<open>Failures of the vision service\<close>

text \<open>
  C9, on the code. On a network error (the request is rejected), on a status that is not a
  success, and on a body that cannot be parsed (or is \<open>null\<close>), the single-image clients
  return the fallback of their \<open>catch\<close> block: the action is SCAN, \<open>targetVisible\<close> is
  false and the reasoning is one of two fixed non-empty messages; the stereo client then
  makes the monocular request and returns its result. Should the awaited call throw all
  the same, \<open>handleVisionCapture\<close> sets the agent's action to SCAN. A body that parses but
  lacks the expected fields is not caught: for the payload \<open>{}\<close>, with status 200, every
  client returns a result whose action is missing, not SCAN, although the source announces
  at that place that the response is made to match the expected format.
\<close>

theorem vision_failure_fallback:
  "getMonocularNavCommand (Rejected e) = scanFallback e
   \<and> getMonocularNavCommand (Response False code txt b)
       = scanFallback (Error (''SAM2 backend error: '' @ showNat code @ '' '' @ txt))
   \<and> getMonocularNavCommand (Response True code txt (Unparsable e)) = scanFallback e
   \<and> getMonocularNavCommand (Response True code txt ParsedNull)
       = scanFallback (Error ''Cannot read properties of null'')
   \<and> getNavCommand1 r = getMonocularNavCommand r
   \<and> getNavCommand (Rejected e) r = getMonocularNavCommand r
   \<and> getNavCommand (Response False code txt b) r = getMonocularNavCommand r
   \<and> getNavCommand (Response True code txt (Unparsable e)) r = getMonocularNavCommand r
   \<and> getNavCommand (Response True code txt ParsedNull) r = getMonocularNavCommand r
   \<and> VisionResponse.action (scanFallback e) = Some ''SCAN''
   \<and> targetVisible (scanFallback e) = Some False
   \<and> (\<exists>msg. reasoning (scanFallback e) = Some msg \<and> msg \<noteq> []
        \<and> (msg = ''SAM2 backend not running. Please start the Python backend server.''
            \<or> msg = ''SAM2 backend unavailable. Falling back to scan mode.''))
   \<and> agentAction (handleVisionCapture (Inl e) (a\<lparr>isRunning := True, isProcessing := False\<rparr>))
       = Some ''SCAN''
   \<and> VisionResponse.action (getMonocularNavCommand (Response True 200 ''OK'' (Parsed emptyObject)))
       = None
   \<and> VisionResponse.action (getNavCommand1 (Response True 200 ''OK'' (Parsed emptyObject)))
       = None
   \<and> VisionResponse.action (getNavCommand (Response True 200 ''OK'' (Parsed emptyObject)) r)
       = None
   \<and> targetVisible (getMonocularNavCommand (Response True 200 ''OK'' (Parsed emptyObject)))
       = None
   \<and> reasoning (getMonocularNavCommand (Response True 200 ''OK'' (Parsed emptyObject)))
       = None"
proof -
  have fb: "agentAction (handleVisionCapture (Inl e) (a\<lparr>isRunning := True, isProcessing := False\<rparr>))
      = Some ''SCAN''"
    by (simp add: handleVisionCapture_def)
  have em: "VisionResponse.action emptyObject = None" "targetVisible emptyObject = None"
    "reasoning emptyObject = None"
    by (simp_all add: emptyObject_def)
  have p: "targetVisible (getMonocularNavCommand (Response True 200 ''OK'' (Parsed emptyObject)))
      = None"
    "reasoning (getMonocularNavCommand (Response True 200 ''OK'' (Parsed emptyObject))) = None"
    by (simp_all add: getMonocularNavCommand_def visionRequest_def em)
  show ?thesis
    using scanFallback_shape [of e]
    by (simp only: single_image_outcomes stereo_outcomes parsed_body_unvalidated fb em p
        simp_thms)
qed

theorem vision_failure_fallback_witness:
  "VisionResponse.action (getNavCommand (Rejected (Error ''Failed to fetch''))
        (Response False 503 ''Service Unavailable'' ParsedNull)) = Some ''SCAN''
   \<and> reasoning (getNavCommand1 (Rejected (Error ''Failed to fetch'')))
        = Some ''SAM2 backend not running. Please start the Python backend server.''
   \<and> VisionResponse.action (getNavCommand1 (Response True 200 ''OK'' (Parsed emptyObject)))
        \<noteq> Some ''SCAN''"
proof -
  note t = vision_failure_fallback
    [of "Error ''Failed to fetch''" 503 "''Service Unavailable''" ParsedNull
      "Response False 503 ''Service Unavailable'' ParsedNull"]
  have a: "getNavCommand (Rejected (Error ''Failed to fetch''))
      (Response False 503 ''Service Unavailable'' ParsedNull)
      = scanFallback (Error (''SAM2 backend error: '' @ showNat 503 @ '' '' @ ''Service Unavailable''))"
    using t by (simp only:)
  have b: "getNavCommand1 (Rejected (Error ''Failed to fetch''))
      = scanFallback (Error ''Failed to fetch'')"
    using vision_failure_fallback [of "Error ''Failed to fetch''" 503 "''Service Unavailable''"
      ParsedNull "Rejected (Error ''Failed to fetch'')"]
    by (simp only:)
  have c: "VisionResponse.action (getNavCommand1 (Response True 200 ''OK'' (Parsed emptyObject)))
      = None"
    using t by (simp only:)
  have s: "VisionResponse.action (scanFallback x) = Some ''SCAN''" for x
    using vision_failure_fallback [of x] by (simp only:)
  show ?thesis
    unfolding a b c
    by (simp add: s) (simp add: scanFallback_def Let_def)
qed

end
